theory Spec2Isabelle
  imports Complex_Main
begin

section \<open>Values of the program\<close>

text \<open>
  The program is a Flask application in one file, \<^verbatim>\<open>app.py\<close>. Its functions raise and
  catch Python exceptions, sleep, log, draw random numbers, call external services and
  change the files under \<^verbatim>\<open>BASE_DOWNLOAD_FOLDER\<close>. Every one of these effects is
  explicit in the model: a function of the source becomes a function from a state to a
  result and a new state, where the result is \<open>Inl e\<close> when the source raises \<open>e\<close>.
\<close>

text \<open>
  An exception, with the text that \<^verbatim>\<open>str(e)\<close> gives. Each of them is an
  \<^verbatim>\<open>Exception\<close>, the class that every handler of the source catches.
\<close>

datatype exn =
  Exception string
| IndexError string
| KeyError string
| TypeError string
| FileNotFoundError string
| FileExistsError string
| NotADirectoryError string
| OSError string

fun str_exn :: "exn \<Rightarrow> string" where
  "str_exn (Exception m) = m"
| "str_exn (IndexError m) = m"
| "str_exn (KeyError m) = m"
| "str_exn (TypeError m) = m"
| "str_exn (FileNotFoundError m) = m"
| "str_exn (FileExistsError m) = m"
| "str_exn (NotADirectoryError m) = m"
| "str_exn (OSError m) = m"

subsection \<open>Strings\<close>

text \<open>\<^verbatim>\<open>str(n)\<close> for a Python integer.\<close>

definition digit_char :: "nat \<Rightarrow> char" where
  "digit_char d = ''0123456789'' ! d"

fun str_nat :: "nat \<Rightarrow> string" where
  "str_nat n = (if n < 10 then [digit_char n] else str_nat (n div 10) @ [digit_char (n mod 10)])"

declare str_nat.simps [simp del]

definition str_int :: "int \<Rightarrow> string" where
  "str_int i = (if i < 0 then CHR ''-'' # str_nat (nat (- i)) else str_nat (nat i))"

text \<open>\<^verbatim>\<open>s.startswith(p)\<close> and \<^verbatim>\<open>s.endswith(p)\<close>.\<close>

definition startswith :: "string \<Rightarrow> string \<Rightarrow> bool" where
  "startswith s p = (take (length p) s = p)"

definition endswith :: "string \<Rightarrow> string \<Rightarrow> bool" where
  "endswith s p = (length p \<le> length s \<and> drop (length s - length p) s = p)"

text \<open>
  \<^verbatim>\<open>s.split(sep)\<close> for a separator that is not empty (the source splits at the
  constants \<^verbatim>\<open>'/playlist/'\<close> and \<^verbatim>\<open>'?'\<close>): the text is scanned from the left, \<open>cur\<close> is
  the piece read so far.
\<close>

fun split_from :: "string \<Rightarrow> string \<Rightarrow> string \<Rightarrow> string list" where
  "split_from sep cur [] = [cur]"
| "split_from sep cur (c # cs) =
     (if sep \<noteq> [] \<and> startswith (c # cs) sep
      then cur # split_from sep [] (drop (length sep) (c # cs))
      else split_from sep (cur @ [c]) cs)"

definition split :: "string \<Rightarrow> string \<Rightarrow> string list" where
  "split s sep = split_from sep [] s"

subsection \<open>Files\<close>

text \<open>
  The files under \<^verbatim>\<open>BASE_DOWNLOAD_FOLDER\<close>, two levels deep as the program uses them:
  the root lists session folders (and whatever else lies there), a folder lists its
  entries. A listing is an association list in the order of \<^verbatim>\<open>os.listdir\<close>. A path
  \<^verbatim>\<open>os.path.join(BASE_DOWNLOAD_FOLDER, folder)\<close> is the name \<open>folder\<close>, a path
  \<^verbatim>\<open>os.path.join(folder_path, file)\<close> is the pair of the two names; names that
  contain a path separator are outside the model. Time is counted in microseconds, the
  resolution of \<^verbatim>\<open>datetime\<close>.

  A listing never holds the names \<^verbatim>\<open>.\<close> and \<^verbatim>\<open>..\<close>, but a path may end in them:
  under the root, \<^verbatim>\<open>.\<close> is the root itself and \<^verbatim>\<open>..\<close> the directory that holds it.
\<close>

datatype entry =
  RegFile (mtime: int)  \<comment> \<open>a regular file and its time of last modification\<close>
| NonFile               \<comment> \<open>anything for which \<^verbatim>\<open>os.path.isfile\<close> is false\<close>

type_synonym folder = "(string \<times> entry) list"

datatype root_entry =
  Folder folder         \<comment> \<open>a directory and its listing\<close>
| NonDir                \<comment> \<open>anything for which \<^verbatim>\<open>os.path.isdir\<close> is false\<close>

type_synonym storage = "(string \<times> root_entry) list"

type_synonym path = "string \<times> string"

text \<open>Removing a name from a listing, and writing an entry under a name.\<close>

definition unlink :: "string \<Rightarrow> (string \<times> 'a) list \<Rightarrow> (string \<times> 'a) list" where
  "unlink n xs = filter (\<lambda>p. fst p \<noteq> n) xs"

definition put :: "string \<Rightarrow> 'a \<Rightarrow> (string \<times> 'a) list \<Rightarrow> (string \<times> 'a) list" where
  "put n v xs = (if n \<in> set (map fst xs) then map (\<lambda>p. if fst p = n then (n, v) else p) xs
                 else xs @ [(n, v)])"

text \<open>
  The functions of \<^verbatim>\<open>os\<close> and \<^verbatim>\<open>os.path\<close> that the program calls, on this
  storage. Those that can raise return a sum.
\<close>

definition folder_of :: "storage \<Rightarrow> string \<Rightarrow> folder option" where
  "folder_of st f = (case map_of st f of Some (Folder es) \<Rightarrow> Some es | _ \<Rightarrow> None)"

definition file_at :: "storage \<Rightarrow> path \<Rightarrow> entry option" where
  "file_at st p = (case folder_of st (fst p) of Some es \<Rightarrow> map_of es (snd p) | None \<Rightarrow> None)"

definition set_folder :: "string \<Rightarrow> folder \<Rightarrow> storage \<Rightarrow> storage" where
  "set_folder f es st = map (\<lambda>p. if fst p = f then (f, Folder es) else p) st"

definition os_path_exists :: "storage \<Rightarrow> string \<Rightarrow> bool" where
  "os_path_exists st f = (f = ''.'' \<or> f = ''..'' \<or> map_of st f \<noteq> None)"

definition os_path_isdir :: "storage \<Rightarrow> string \<Rightarrow> bool" where
  "os_path_isdir st f = (folder_of st f \<noteq> None)"

definition os_path_isfile :: "storage \<Rightarrow> path \<Rightarrow> bool" where
  "os_path_isfile st p = (case file_at st p of Some (RegFile t) \<Rightarrow> True | _ \<Rightarrow> False)"

definition os_listdir :: "storage \<Rightarrow> string \<Rightarrow> exn + string list" where
  "os_listdir st f =
     (case map_of st f of
        Some (Folder es) \<Rightarrow> Inr (map fst es)
      | Some NonDir \<Rightarrow> Inl (NotADirectoryError f)
      | None \<Rightarrow> Inl (FileNotFoundError f))"

definition os_remove :: "path \<Rightarrow> storage \<Rightarrow> exn + storage" where
  "os_remove p st =
     (case folder_of st (fst p) of
        None \<Rightarrow> Inl (FileNotFoundError (snd p))
      | Some es \<Rightarrow>
          (case map_of es (snd p) of
             None \<Rightarrow> Inl (FileNotFoundError (snd p))
           | Some NonFile \<Rightarrow> Inl (OSError (snd p))
           | Some (RegFile t) \<Rightarrow> Inr (set_folder (fst p) (unlink (snd p) es) st)))"

definition os_rmdir :: "string \<Rightarrow> storage \<Rightarrow> exn + storage" where
  "os_rmdir f st =
     (case map_of st f of
        None \<Rightarrow> Inl (FileNotFoundError f)
      | Some NonDir \<Rightarrow> Inl (NotADirectoryError f)
      | Some (Folder es) \<Rightarrow> (if es = [] then Inr (unlink f st) else Inl (OSError f)))"

text \<open>\<^verbatim>\<open>os.makedirs(path, exist_ok=True)\<close> for a folder directly under the root.\<close>

definition os_makedirs :: "string \<Rightarrow> storage \<Rightarrow> exn + storage" where
  "os_makedirs f st =
     (case map_of st f of
        None \<Rightarrow> Inr (st @ [(f, Folder [])])
      | Some (Folder es) \<Rightarrow> Inr st
      | Some NonDir \<Rightarrow> Inl (FileExistsError f))"

text \<open>
  Opening a path for writing, as the external tools do before they produce a file, and
  the file they leave there, with its modification time.
\<close>

definition writable :: "storage \<Rightarrow> path \<Rightarrow> exn + unit" where
  "writable st p =
     (case folder_of st (fst p) of
        None \<Rightarrow> Inl (FileNotFoundError (snd p))
      | Some es \<Rightarrow> (case map_of es (snd p) of Some NonFile \<Rightarrow> Inl (OSError (snd p)) | _ \<Rightarrow> Inr ()))"

definition write_file :: "path \<Rightarrow> int \<Rightarrow> storage \<Rightarrow> storage" where
  "write_file p t st =
     (case folder_of st (fst p) of
        None \<Rightarrow> st
      | Some es \<Rightarrow> set_folder (fst p) (put (snd p) (RegFile t) es) st)"

subsection \<open>Logging, tracing, state\<close>

datatype level = INFO | WARNING | ERROR

text \<open>
  One constructor for each message the source logs, with the values it formats into the
  text (the delay of a retry is formatted with two decimals in the source).
\<close>

datatype msg =
  Retrying string string real     \<comment> \<open>Error in \<open>name\<close>: \<open>e\<close>. Retrying in \<open>delay\<close> seconds...\<close>
| DeletedOldFile path             \<comment> \<open>Deleted old file: \<open>path\<close>\<close>
| FetchedTracks nat               \<comment> \<open>Fetched \<open>n\<close> tracks from Spotify.\<close>
| FoundVideoApi string string     \<comment> \<open>Found video for \<open>query\<close> using YouTube API: \<open>url\<close>\<close>
| SearchingYtDlp string           \<comment> \<open>Searching for \<open>query\<close> on YouTube using yt-dlp...\<close>
| FoundVideoYtDlp string string   \<comment> \<open>Found video for \<open>query\<close> using yt-dlp: \<open>url\<close>\<close>
| Downloading string              \<comment> \<open>Downloading \<open>query\<close>...\<close>
| Downloaded string               \<comment> \<open>Downloaded \<open>query\<close> successfully.\<close>
| Converting string               \<comment> \<open>Converting \<open>query\<close> to MP3...\<close>
| Converted string                \<comment> \<open>Converted \<open>query\<close> to MP3 successfully.\<close>
| ErrorConverting string string   \<comment> \<open>Error converting \<open>query\<close> to MP3: \<open>e\<close>\<close>
| FailedToDownload string string  \<comment> \<open>Failed to download \<open>query\<close>: \<open>e\<close>\<close>

text \<open>
  The trace has no counterpart in the source: it records, in order, each call of a
  decorated function (\<open>Invoke\<close>, written when the wrapper is entered) and each call of an
  external collaborator (\<open>Extern\<close>), so that theorems can count them.
\<close>

datatype event =
  Invoke string "string list"
| Extern string "string list"

record 'w state =
  storage :: storage               \<comment> \<open>the listing of \<^verbatim>\<open>BASE_DOWNLOAD_FOLDER\<close>\<close>
  parent_names :: "string list"    \<comment> \<open>the names in the directory that holds it\<close>
  ext :: 'w                        \<comment> \<open>the state of the external services\<close>
  draws :: nat                     \<comment> \<open>how many times \<^verbatim>\<open>random.uniform(0, 1)\<close> was called\<close>
  slept :: "real list"             \<comment> \<open>the arguments of \<^verbatim>\<open>time.sleep\<close>, in order\<close>
  logged :: "(level \<times> msg) list"   \<comment> \<open>the records written by \<^verbatim>\<open>logging\<close>, in order\<close>
  trace :: "event list"

type_synonym ('w, 'a) action = "'w state \<Rightarrow> (exn + 'a) \<times> 'w state"

definition logging :: "level \<Rightarrow> msg \<Rightarrow> 'w state \<Rightarrow> 'w state" where
  "logging l m s = s\<lparr>logged := logged s @ [(l, m)]\<rparr>"

definition sleep :: "real \<Rightarrow> 'w state \<Rightarrow> 'w state" where
  "sleep d s = s\<lparr>slept := slept s @ [d]\<rparr>"

definition record_event :: "event \<Rightarrow> 'w state \<Rightarrow> 'w state" where
  "record_event ev s = s\<lparr>trace := trace s @ [ev]\<rparr>"

text \<open>
  A call of an external collaborator: it is recorded in the trace, and its outcome and
  its effect on the services are whatever the collaborator \<open>op\<close> decides.
\<close>

definition extern :: "string \<Rightarrow> string list \<Rightarrow> ('w \<Rightarrow> (exn + 'a) \<times> 'w) \<Rightarrow> ('w, 'a) action" where
  "extern name args op s =
     (case op (ext s) of (r, w) \<Rightarrow> (r, record_event (Extern name args) (s\<lparr>ext := w\<rparr>)))"

subsection \<open>External collaborators\<close>

text \<open>
  What the catalog service returns. A page holds its items and its \<^verbatim>\<open>'next'\<close> link; an
  item's \<^verbatim>\<open>'track'\<close> is an object with a name and the names of its artists, or
  \<^verbatim>\<open>None\<close>. The link is absent on the last page; otherwise it carries what
  \<^verbatim>\<open>sp.next(results)\<close> does when it follows the link: it raises, or it returns the next
  page. A playlist therefore has finitely many pages.
\<close>

datatype sp_track = SpTrack (sp_name: string) (sp_artists: "string list")

datatype paging = Paging (items: "sp_track option list") (next_link: "(exn + paging) option")

text \<open>The dictionary \<^verbatim>\<open>{'name': ..., 'artist': ...}\<close> that the resolver builds.\<close>

datatype track = Track (track_name: string) (track_artist: string)

text \<open>
  The response of the search API: \<open>None\<close> when it has no key \<^verbatim>\<open>'items'\<close>, otherwise
  for each item its \<^verbatim>\<open>['id']['videoId']\<close>, \<open>None\<close> when the item has no such key.
  The result of \<^verbatim>\<open>extract_info\<close> has the same shape, with \<^verbatim>\<open>'entries'\<close> and
  \<^verbatim>\<open>'url'\<close>.
\<close>

type_synonym search_response = "string option list option"

type_synonym ydl_result = "string option list option"

text \<open>The decoded audio that \<^verbatim>\<open>AudioSegment.from_file\<close> returns.\<close>

datatype audio = AudioSegment "nat list"

text \<open>
  The collaborators, as functions on the state \<open>'w\<close> of the outside world, so that the same
  call may fail once and succeed later:
  \<^item> \<open>random_uniform k\<close> is what the \<open>k\<close>-th call of \<^verbatim>\<open>random.uniform(0, 1)\<close> returns;
  \<^item> \<open>youtube_search\<close> stands for lines 93 and 94 of the source, the choice of a key, the
    construction of the client and the request;
  \<^item> \<open>ydl_download\<close> returns, when it succeeds, the modification time of the file it
    has written at the path it was given; when it raises it has written no file there;
  \<^item> \<open>audio_export\<close> is the encoder run of \<^verbatim>\<open>audio.export\<close>, which comes after
    \<^verbatim>\<open>export\<close> has opened its output: it returns, when it succeeds, the modification
    time of the finished file;
  \<^item> \<open>opened_at w\<close> is the modification time that a file gets when it is created or
    truncated while the outside world is in state \<open>w\<close>.
\<close>

record 'w env =
  random_uniform :: "nat \<Rightarrow> real"
  uuid4 :: "'w \<Rightarrow> string \<times> 'w"
  playlist_tracks :: "string \<Rightarrow> 'w \<Rightarrow> (exn + paging) \<times> 'w"
  youtube_search :: "string \<Rightarrow> 'w \<Rightarrow> (exn + search_response) \<times> 'w"
  extract_info :: "string \<Rightarrow> 'w \<Rightarrow> (exn + ydl_result) \<times> 'w"
  ydl_download :: "string \<Rightarrow> path \<Rightarrow> 'w \<Rightarrow> (exn + int) \<times> 'w"
  audio_from_file :: "path \<Rightarrow> 'w \<Rightarrow> (exn + audio) \<times> 'w"
  audio_export :: "audio \<Rightarrow> path \<Rightarrow> 'w \<Rightarrow> (exn + int) \<times> 'w"
  opened_at :: "'w \<Rightarrow> int"

definition uniform :: "'w env \<Rightarrow> 'w state \<Rightarrow> real \<times> 'w state" where
  "uniform env s = (random_uniform env (draws s), s\<lparr>draws := Suc (draws s)\<rparr>)"

section \<open>The retry decorator\<close>

text \<open>
  \<^verbatim>\<open>retry_on_failure(retries, backoff_factor, jitter)(func)\<close>, lines 36 to 53. \<open>wrapper\<close>
  is the loop of the source from a given value of \<open>attempt\<close>; \<open>name\<close> is
  \<^verbatim>\<open>func.__name__\<close>, and \<open>func\<close> is the decorated function applied to its arguments.
\<close>

function wrapper ::
  "'w env \<Rightarrow> int \<Rightarrow> real \<Rightarrow> bool \<Rightarrow> string \<Rightarrow> ('w, 'a) action \<Rightarrow> int \<Rightarrow> ('w, 'a) action" where
  "wrapper env retries backoff_factor jitter name func attempt s =
     (if attempt < retries then
        (case func s of
           (Inr v, s1) \<Rightarrow> (Inr v, s1)
         | (Inl e, s1) \<Rightarrow>
             (let attempt' = attempt + 1;
                  delay = backoff_factor ^ nat attempt';
                  (delay', s2) = (if jitter then (case uniform env s1 of (u, s') \<Rightarrow> (delay + u, s'))
                                  else (delay, s1));
                  s3 = logging WARNING (Retrying name (str_exn e) delay') s2;
                  s4 = sleep delay' s3
              in wrapper env retries backoff_factor jitter name func attempt' s4))
      else (Inl (Exception (name @ '' failed after '' @ str_int retries @ '' retries.'')), s))"
  by pat_completeness auto
termination
  by (relation "measure (\<lambda>(env, retries, backoff_factor, jitter, name, func, attempt, s).
        nat (retries - attempt))") auto

declare wrapper.simps [simp del]

definition retry_on_failure ::
  "'w env \<Rightarrow> int \<Rightarrow> real \<Rightarrow> bool \<Rightarrow> string \<Rightarrow> string list \<Rightarrow> ('w, 'a) action \<Rightarrow> ('w, 'a) action" where
  "retry_on_failure env retries backoff_factor jitter name args func s =
     wrapper env retries backoff_factor jitter name func 0 (record_event (Invoke name args) s)"

text \<open>The decorator as the source applies it, \<^verbatim>\<open>@retry_on_failure()\<close>, with its defaults.\<close>

definition retry_default :: "'w env \<Rightarrow> string \<Rightarrow> string list \<Rightarrow> ('w, 'a) action \<Rightarrow> ('w, 'a) action" where
  "retry_default env name args func = retry_on_failure env 5 2 True name args func"

section \<open>The retention sweeper\<close>

text \<open>
  \<^verbatim>\<open>cleanup_old_files\<close>, lines 56 to 72, is \<^verbatim>\<open>while True\<close> around one cycle and never
  returns; the model is the cycle. \<open>now\<close> is the value of \<^verbatim>\<open>datetime.now()\<close> read at the
  start of the cycle, and \<open>max_age\<close> is \<^verbatim>\<open>timedelta(days=5)\<close>.
\<close>

definition max_age :: int where
  "max_age = 5 * 86400 * 1000000"

text \<open>The inner loop, over the listing \<open>files\<close> of the folder taken before the loop.\<close>

fun cleanup_files :: "int \<Rightarrow> string \<Rightarrow> string list \<Rightarrow> ('w, unit) action" where
  "cleanup_files now folder [] s = (Inr (), s)"
| "cleanup_files now folder (file # files) s =
     (let file_path = (folder, file) in
      case file_at (storage s) file_path of
        Some (RegFile t) \<Rightarrow>
          (let file_age = now - t in
           if file_age > max_age then
             (case os_remove file_path (storage s) of
                Inl e \<Rightarrow> (Inl e, s)
              | Inr st \<Rightarrow>
                  cleanup_files now folder files
                    (logging INFO (DeletedOldFile file_path) (s\<lparr>storage := st\<rparr>)))
           else cleanup_files now folder files s)
      | _ \<Rightarrow> cleanup_files now folder files s)"

text \<open>The outer loop, over the listing \<open>folders\<close> of the root taken before the loop.\<close>

fun cleanup_folders :: "int \<Rightarrow> string list \<Rightarrow> ('w, unit) action" where
  "cleanup_folders now [] s = (Inr (), s)"
| "cleanup_folders now (folder # folders) s =
     (if os_path_isdir (storage s) folder then
        (case os_listdir (storage s) folder of
           Inl e \<Rightarrow> (Inl e, s)
         | Inr files \<Rightarrow>
             (case cleanup_files now folder files s of
                (Inl e, s1) \<Rightarrow> (Inl e, s1)
              | (Inr u, s1) \<Rightarrow>
                  (case os_listdir (storage s1) folder of
                     Inl e \<Rightarrow> (Inl e, s1)
                   | Inr rest \<Rightarrow>
                       if rest = [] then
                         (case os_rmdir folder (storage s1) of
                            Inl e \<Rightarrow> (Inl e, s1)
                          | Inr st \<Rightarrow> cleanup_folders now folders (s1\<lparr>storage := st\<rparr>))
                       else cleanup_folders now folders s1)))
      else cleanup_folders now folders s)"

definition cleanup_cycle :: "int \<Rightarrow> ('w, unit) action" where
  "cleanup_cycle now s =
     (case cleanup_folders now (map fst (storage s)) s of
        (Inl e, s1) \<Rightarrow> (Inl e, s1)
      | (Inr u, s1) \<Rightarrow> (Inr (), sleep 3600 s1))"

section \<open>The acquisition pipeline\<close>

text \<open>\<^verbatim>\<open>try: body except Exception as e: handler\<close>, and a \<^verbatim>\<open>for\<close> loop.\<close>

definition try_except :: "('w, 'a) action \<Rightarrow> (exn \<Rightarrow> ('w, 'a) action) \<Rightarrow> ('w, 'a) action" where
  "try_except body handler s =
     (case body s of (Inl e, s1) \<Rightarrow> handler e s1 | (Inr v, s1) \<Rightarrow> (Inr v, s1))"

fun for_each :: "'a list \<Rightarrow> ('a \<Rightarrow> ('w, unit) action) \<Rightarrow> ('w, unit) action" where
  "for_each [] body s = (Inr (), s)"
| "for_each (x # xs) body s =
     (case body x s of (Inl e, s1) \<Rightarrow> (Inl e, s1) | (Inr u, s1) \<Rightarrow> for_each xs body s1)"

subsection \<open>Catalog resolution\<close>

text \<open>The \<^verbatim>\<open>for item in results['items']\<close> loop of lines 82 to 84.\<close>

fun append_items :: "sp_track option list \<Rightarrow> track list \<Rightarrow> exn + track list" where
  "append_items [] tracks = Inr tracks"
| "append_items (None # its) tracks = Inl (TypeError ''NoneType object is not subscriptable'')"
| "append_items (Some (SpTrack n []) # its) tracks = Inl (IndexError ''list index out of range'')"
| "append_items (Some (SpTrack n (a # as)) # its) tracks = append_items its (tracks @ [Track n a])"

text \<open>The \<^verbatim>\<open>while results\<close> loop of lines 81 to 85.\<close>

fun collect_pages :: "paging \<Rightarrow> track list \<Rightarrow> ('w, track list) action" where
  "collect_pages (Paging its None) tracks s =
     (case append_items its tracks of Inl e \<Rightarrow> (Inl e, s) | Inr tracks' \<Rightarrow> (Inr tracks', s))"
| "collect_pages (Paging its (Some (Inl e'))) tracks s =
     (case append_items its tracks of
        Inl e \<Rightarrow> (Inl e, s)
      | Inr tracks' \<Rightarrow> (Inl e', record_event (Extern ''sp.next'' []) s))"
| "collect_pages (Paging its (Some (Inr results))) tracks s =
     (case append_items its tracks of
        Inl e \<Rightarrow> (Inl e, s)
      | Inr tracks' \<Rightarrow> collect_pages results tracks' (record_event (Extern ''sp.next'' []) s))"

text \<open>The body of \<^verbatim>\<open>fetch_spotify_playlist_tracks\<close>, lines 77 to 88.\<close>

definition parse_playlist_id :: "string \<Rightarrow> exn + string" where
  "parse_playlist_id playlist_url =
     (case split playlist_url ''/playlist/'' of
        p # q # ps \<Rightarrow>
          (case split q ''?'' of
             playlist_id # qs \<Rightarrow> Inr playlist_id
           | [] \<Rightarrow> Inl (IndexError ''list index out of range''))
      | _ \<Rightarrow> Inl (IndexError ''list index out of range''))"

definition fetch_body :: "'w env \<Rightarrow> string \<Rightarrow> ('w, track list) action" where
  "fetch_body env playlist_url s =
     (case parse_playlist_id playlist_url of
        Inl e \<Rightarrow> (Inl e, s)
      | Inr playlist_id \<Rightarrow>
          (case extern ''sp.playlist_tracks'' [playlist_id] (playlist_tracks env playlist_id) s of
             (Inl e, s1) \<Rightarrow> (Inl e, s1)
           | (Inr results, s1) \<Rightarrow>
               (case collect_pages results [] s1 of
                  (Inl e, s2) \<Rightarrow> (Inl e, s2)
                | (Inr tracks, s2) \<Rightarrow>
                    (Inr tracks, logging INFO (FetchedTracks (length tracks)) s2))))"

definition fetch_spotify_playlist_tracks :: "'w env \<Rightarrow> string \<Rightarrow> ('w, track list) action" where
  "fetch_spotify_playlist_tracks env playlist_url =
     retry_default env ''fetch_spotify_playlist_tracks'' [playlist_url] (fetch_body env playlist_url)"

subsection \<open>Source location\<close>

definition quoted :: "string \<Rightarrow> string" where
  "quoted q = [CHR 0x27] @ q @ [CHR 0x27]"

text \<open>The body of \<^verbatim>\<open>search_youtube_api\<close>, lines 93 to 101.\<close>

definition search_api_body :: "'w env \<Rightarrow> string \<Rightarrow> ('w, string) action" where
  "search_api_body env query s =
     (case extern ''youtube.search.list'' [query] (youtube_search env query) s of
        (Inl e, s1) \<Rightarrow> (Inl e, s1)
      | (Inr search_response, s1) \<Rightarrow>
          (case search_response of
             Some (item # its) \<Rightarrow>
               (case item of
                  None \<Rightarrow> (Inl (KeyError ''videoId''), s1)
                | Some video_id \<Rightarrow>
                    (let video_url = ''https://www.youtube.com/watch?v='' @ video_id
                     in (Inr video_url, logging INFO (FoundVideoApi query video_url) s1)))
           | _ \<Rightarrow> (Inl (Exception (''No YouTube results found for '' @ quoted query)), s1)))"

definition search_youtube_api :: "'w env \<Rightarrow> string \<Rightarrow> ('w, string) action" where
  "search_youtube_api env query =
     retry_default env ''search_youtube_api'' [query] (search_api_body env query)"

text \<open>The body of \<^verbatim>\<open>search_youtube_yt_dlp\<close>, lines 106 to 115.\<close>

definition search_yt_dlp_body :: "'w env \<Rightarrow> string \<Rightarrow> ('w, string) action" where
  "search_yt_dlp_body env query s =
     (case extern ''ydl.extract_info'' [''ytsearch:'' @ query] (extract_info env (''ytsearch:'' @ query))
             (logging INFO (SearchingYtDlp query) s) of
        (Inl e, s1) \<Rightarrow> (Inl e, s1)
      | (Inr result, s1) \<Rightarrow>
          (case result of
             Some (entry # entries) \<Rightarrow>
               (case entry of
                  None \<Rightarrow> (Inl (KeyError ''url''), s1)
                | Some video_url \<Rightarrow> (Inr video_url, logging INFO (FoundVideoYtDlp query video_url) s1))
           | _ \<Rightarrow> (Inl (Exception (''No results found for '' @ quoted query)), s1)))"

definition search_youtube_yt_dlp :: "'w env \<Rightarrow> string \<Rightarrow> ('w, string) action" where
  "search_youtube_yt_dlp env query =
     retry_default env ''search_youtube_yt_dlp'' [query] (search_yt_dlp_body env query)"

subsection \<open>Media acquisition\<close>

text \<open>
  The \<^verbatim>\<open>try\<close> block of \<^verbatim>\<open>convert_to_mp3\<close>, lines 132 to 137. \<^verbatim>\<open>AudioSegment.from_file\<close>
  opens the input, which must be a regular file, before the decoder runs.
  \<^verbatim>\<open>export\<close> opens the output for writing first, which creates the file or empties
  it, and runs the encoder after that: when the encoder raises, the file that was
  opened stays where it is.
\<close>

definition convert_body :: "'w env \<Rightarrow> path \<Rightarrow> string \<Rightarrow> string \<Rightarrow> ('w, unit) action" where
  "convert_body env input_file query output_dir s =
     (let s0 = logging INFO (Converting query) s in
      case file_at (storage s0) input_file of
        None \<Rightarrow> (Inl (FileNotFoundError (snd input_file)), s0)
      | Some NonFile \<Rightarrow> (Inl (OSError (snd input_file)), s0)
      | Some (RegFile t0) \<Rightarrow>
          (case extern ''AudioSegment.from_file'' [fst input_file, snd input_file]
                  (audio_from_file env input_file) s0 of
             (Inl e, s1) \<Rightarrow> (Inl e, s1)
           | (Inr audio, s1) \<Rightarrow>
               (let mp3_output_path = (output_dir, query @ ''.mp3'') in
                case writable (storage s1) mp3_output_path of
                  Inl e \<Rightarrow> (Inl e, s1)
                | Inr u \<Rightarrow>
                    (case extern ''audio.export'' [fst mp3_output_path, snd mp3_output_path]
                            (audio_export env audio mp3_output_path)
                            (s1\<lparr>storage := write_file mp3_output_path (opened_at env (ext s1))
                                             (storage s1)\<rparr>) of
                       (Inl e, s2) \<Rightarrow> (Inl e, s2)
                     | (Inr t, s2) \<Rightarrow>
                         (let s3 = s2\<lparr>storage := write_file mp3_output_path t (storage s2)\<rparr> in
                          case os_remove input_file (storage s3) of
                            Inl e \<Rightarrow> (Inl e, s3)
                          | Inr st \<Rightarrow>
                              (Inr (), logging INFO (Converted query) (s3\<lparr>storage := st\<rparr>)))))))"

definition convert_to_mp3 :: "'w env \<Rightarrow> path \<Rightarrow> string \<Rightarrow> string \<Rightarrow> ('w, unit) action" where
  "convert_to_mp3 env input_file query output_dir =
     try_except (convert_body env input_file query output_dir)
       (\<lambda>e s. (Inr (), logging ERROR (ErrorConverting query (str_exn e)) s))"

text \<open>
  The body of \<^verbatim>\<open>download_song\<close>, lines 120 to 127. The download tool creates the
  directory of its output when it is missing.
\<close>

definition download_body :: "'w env \<Rightarrow> string \<Rightarrow> string \<Rightarrow> string \<Rightarrow> ('w, unit) action" where
  "download_body env video_url query output_dir s =
     (let output_path = (output_dir, query @ ''.webm'') in
      case extern ''ydl.download'' [video_url] (ydl_download env video_url output_path)
             (logging INFO (Downloading query) s) of
        (Inl e, s1) \<Rightarrow> (Inl e, s1)
      | (Inr t, s1) \<Rightarrow>
          (case os_makedirs output_dir (storage s1) of
             Inl e \<Rightarrow> (Inl e, s1)
           | Inr st \<Rightarrow>
               (case writable st output_path of
                  Inl e \<Rightarrow> (Inl e, s1)
                | Inr u \<Rightarrow>
                    convert_to_mp3 env output_path query output_dir
                      (logging INFO (Downloaded query) (s1\<lparr>storage := write_file output_path t st\<rparr>)))))"

definition download_song :: "'w env \<Rightarrow> string \<Rightarrow> string \<Rightarrow> string \<Rightarrow> ('w, unit) action" where
  "download_song env video_url query output_dir =
     retry_default env ''download_song'' [video_url, query, output_dir]
       (download_body env video_url query output_dir)"

subsection \<open>The request handlers\<close>

datatype http_method = GET | POST

datatype response =
  JsonSuccess string                         \<comment> \<open>status success, with the \<^verbatim>\<open>user_id\<close>\<close>
| JsonError string                           \<comment> \<open>status error, with the message\<close>
| JsonFiles "string list"                    \<comment> \<open>the list under \<^verbatim>\<open>"files"\<close>\<close>
| ZipAttachment string "(string \<times> path) list" \<comment> \<open>the download name and the archive's members\<close>
| HtmlForm

definition query_of :: "track \<Rightarrow> string" where
  "query_of track = track_name track @ '' '' @ track_artist track"

text \<open>The inner \<^verbatim>\<open>try\<close> of lines 155 to 158: the primary search, then the fallback.\<close>

definition locate_source :: "'w env \<Rightarrow> string \<Rightarrow> ('w, string) action" where
  "locate_source env query =
     try_except (search_youtube_api env query) (\<lambda>e. search_youtube_yt_dlp env query)"

text \<open>The body of the \<^verbatim>\<open>for track in tracks\<close> loop, lines 153 to 161.\<close>

definition acquire_track :: "'w env \<Rightarrow> string \<Rightarrow> track \<Rightarrow> ('w, unit) action" where
  "acquire_track env user_folder track =
     (let query = query_of track in
      try_except
        (\<lambda>s. case locate_source env query s of
               (Inl e, s1) \<Rightarrow> (Inl e, s1)
             | (Inr video_url, s1) \<Rightarrow> download_song env video_url query user_folder s1)
        (\<lambda>e s. (Inr (), logging ERROR (FailedToDownload query (str_exn e)) s)))"

text \<open>\<^verbatim>\<open>index\<close>, lines 142 to 171, with the request's method and its form field.\<close>

definition index :: "'w env \<Rightarrow> http_method \<Rightarrow> string \<Rightarrow> ('w, response) action" where
  "index env method playlist_url s =
     (if method = POST then
        (case uuid4 env (ext s) of
           (user_id, w) \<Rightarrow>
             (let s0 = s\<lparr>ext := w\<rparr>; user_folder = user_id in
              case os_makedirs user_folder (storage s0) of
                Inl e \<Rightarrow> (Inl e, s0)
              | Inr st \<Rightarrow>
                  try_except
                    (\<lambda>s1. case fetch_spotify_playlist_tracks env playlist_url s1 of
                            (Inl e, s2) \<Rightarrow> (Inl e, s2)
                          | (Inr tracks, s2) \<Rightarrow>
                              (case for_each tracks (acquire_track env user_folder) s2 of
                                 (Inl e, s3) \<Rightarrow> (Inl e, s3)
                               | (Inr u, s3) \<Rightarrow> (Inr (JsonSuccess user_id), s3)))
                    (\<lambda>e s1. (Inr (JsonError (str_exn e)), s1))
                    (s0\<lparr>storage := st\<rparr>)))
      else (Inr HtmlForm, s))"

text \<open>
  \<^verbatim>\<open>os.listdir\<close> on the path \<^verbatim>\<open>os.path.join(BASE_DOWNLOAD_FOLDER, user_id)\<close> of a
  request, where \<^verbatim>\<open>user_id\<close> is a segment of the URL: any text without a path
  separator, so that it may be \<^verbatim>\<open>.\<close> or \<^verbatim>\<open>..\<close> as well.
\<close>

definition listdir_path :: "'w state \<Rightarrow> string \<Rightarrow> exn + string list" where
  "listdir_path s f =
     (if map_of (storage s) f \<noteq> None then os_listdir (storage s) f
      else if f = ''.'' then Inr (map fst (storage s))
      else if f = ''..'' then Inr (parent_names s)
      else Inl (FileNotFoundError f))"

text \<open>\<^verbatim>\<open>list_files\<close>, lines 174 to 180.\<close>

definition not_found :: response where
  "not_found = JsonError ''No files found for this user.''"

definition list_files :: "string \<Rightarrow> ('w, response) action" where
  "list_files user_id s =
     (let user_folder = user_id in
      if \<not> os_path_exists (storage s) user_folder then (Inr not_found, s)
      else (case listdir_path s user_folder of
              Inl e \<Rightarrow> (Inl e, s)
            | Inr names \<Rightarrow> (Inr (JsonFiles (filter (\<lambda>f. endswith f ''.mp3'') names)), s)))"

text \<open>
  \<^verbatim>\<open>download_all\<close>, lines 183 to 194. \<open>zip_write\<close> is the loop that fills the archive:
  \<^verbatim>\<open>zip_file.write(path, filename)\<close> adds a member, the name it is stored under and
  the path whose content it holds.
\<close>

fun zip_write :: "string \<Rightarrow> string list \<Rightarrow> (string \<times> path) list \<Rightarrow> (string \<times> path) list" where
  "zip_write user_folder [] zip_file = zip_file"
| "zip_write user_folder (filename # filenames) zip_file =
     (if endswith filename ''.mp3''
      then zip_write user_folder filenames (zip_file @ [(filename, (user_folder, filename))])
      else zip_write user_folder filenames zip_file)"

definition download_all :: "string \<Rightarrow> ('w, response) action" where
  "download_all user_id s =
     (let user_folder = user_id in
      if \<not> os_path_exists (storage s) user_folder then (Inr not_found, s)
      else (case listdir_path s user_folder of
              Inl e \<Rightarrow> (Inl e, s)
            | Inr names \<Rightarrow>
                (Inr (ZipAttachment (user_id @ ''_songs.zip'') (zip_write user_folder names [])), s)))"

section \<open>Notions used in the statements\<close>

text \<open>
  A state in which nothing has happened yet, over a given storage and outside world; the
  root lies in the working directory of the program.
\<close>

definition init_state :: "storage \<Rightarrow> 'w \<Rightarrow> 'w state" where
  "init_state st w =
     \<lparr>storage = st, parent_names = [''app.py'', ''config.json'', ''downloads''], ext = w,
      draws = 0, slept = [], logged = [], trace = []\<rparr>"

subsection \<open>Retention\<close>

text \<open>
  The test of lines 64 to 66 on one entry: it is a regular file and its age exceeds
  \<open>max_age\<close>. \<open>survivors\<close> are the entries of a folder that fail the test.
\<close>

definition expired :: "int \<Rightarrow> entry \<Rightarrow> bool" where
  "expired now e = (case e of RegFile t \<Rightarrow> now - t > max_age | NonFile \<Rightarrow> False)"

definition survivors :: "int \<Rightarrow> folder \<Rightarrow> folder" where
  "survivors now es = filter (\<lambda>p. \<not> expired now (snd p)) es"

definition sweep :: "int \<Rightarrow> root_entry option \<Rightarrow> root_entry option" where
  "sweep now r =
     (case r of
        Some (Folder es) \<Rightarrow>
          (if survivors now es = [] then None else Some (Folder (survivors now es)))
      | _ \<Rightarrow> r)"

text \<open>A directory holds no two entries of the same name.\<close>

definition distinct_names :: "storage \<Rightarrow> bool" where
  "distinct_names st =
     (\<forall>p \<in> set st. case snd p of Folder es \<Rightarrow> distinct (map fst es) | NonDir \<Rightarrow> True)"

definition wf_storage :: "storage \<Rightarrow> bool" where
  "wf_storage st = (\<forall>f es. map_of st f = Some (Folder es) \<longrightarrow> distinct (map fst es))"

subsection \<open>Example inputs\<close>

definition day :: int where
  "day = 86400 * 1000000"

definition sweep_storage :: storage where
  "sweep_storage =
     [(''s1'', Folder [(''old.mp3'', RegFile (4 * day)), (''new.mp3'', RegFile (6 * day))]),
      (''s2'', Folder [(''gone.mp3'', RegFile 0)]),
      (''readme'', NonDir)]"

definition stray_storage :: storage where
  "stray_storage = [(''.gitkeep'', NonDir), (''s1'', Folder [(''a.mp3'', RegFile 10)])]"

definition demo_storage :: storage where
  "demo_storage =
     [(''s1'', Folder [(''a.mp3'', RegFile 10), (''b.mp3'', RegFile 20), (''a.webm'', RegFile 30)]),
      (''s2'', Folder [(''c.webm'', RegFile 5), (''notes'', NonFile)])]"

subsection \<open>Retrying\<close>

text \<open>
  The delay that the wrapper computes after a failure of attempt number \<open>attempt\<close>, and
  the state after it has drawn the jitter, logged the warning and slept. \<open>jitter_at\<close>
  is the jitter of the \<open>k\<close>-th delay (from 0) of a call that starts after \<open>d\<close> draws.
\<close>

definition delay_of :: "'w env \<Rightarrow> real \<Rightarrow> bool \<Rightarrow> int \<Rightarrow> 'w state \<Rightarrow> real" where
  "delay_of env backoff_factor jitter attempt s =
     backoff_factor ^ nat attempt + (if jitter then random_uniform env (draws s) else 0)"

definition backoff :: "'w env \<Rightarrow> real \<Rightarrow> bool \<Rightarrow> string \<Rightarrow> exn \<Rightarrow> int \<Rightarrow> 'w state \<Rightarrow> 'w state" where
  "backoff env backoff_factor jitter name e attempt s =
     (let d = delay_of env backoff_factor jitter attempt s
      in sleep d (logging WARNING (Retrying name (str_exn e) d)
           (if jitter then s\<lparr>draws := Suc (draws s)\<rparr> else s)))"

definition jitter_at :: "'w env \<Rightarrow> bool \<Rightarrow> nat \<Rightarrow> nat \<Rightarrow> real" where
  "jitter_at env jitter d k = (if jitter then random_uniform env (d + k) else 0)"

text \<open>
  The calls that the wrapper makes, followed from the state \<open>s\<close> in which it makes one
  after \<open>attempt\<close> failures: \<open>raises_each n\<close> says that \<open>func\<close> raises in this call
  and in the \<open>n - 1\<close> calls after it, each made in the state that the wrapper has reached
  by then, and that \<open>func\<close> itself neither sleeps nor draws a random number in them.
  Nothing is said of \<open>func\<close> in any other state.
\<close>

fun raises_each ::
  "nat \<Rightarrow> 'w env \<Rightarrow> real \<Rightarrow> bool \<Rightarrow> string \<Rightarrow> ('w, 'a) action \<Rightarrow> int \<Rightarrow> 'w state \<Rightarrow> bool" where
  "raises_each 0 env b jitter name func attempt s = True"
| "raises_each (Suc n) env b jitter name func attempt s =
     (case func s of
        (Inl e, s1) \<Rightarrow>
          slept s1 = slept s \<and> draws s1 = draws s \<and>
          raises_each n env b jitter name func (attempt + 1)
            (backoff env b jitter name e (attempt + 1) s1)
      | (Inr v, s1) \<Rightarrow> False)"

text \<open>\<^verbatim>\<open>sub in s\<close> on strings.\<close>

fun contains :: "string \<Rightarrow> string \<Rightarrow> bool" where
  "contains [] sub = (sub = [])"
| "contains (c # cs) sub = (startswith (c # cs) sub \<or> contains cs sub)"

text \<open>
  Operations and collaborators for the examples: one that always raises, one that raises
  on its first \<open>n\<close> calls (the outside world counts the calls), and services that find
  nothing and deliver nothing.
\<close>

definition failing :: "string \<Rightarrow> 'w \<Rightarrow> (exn + string) \<times> 'w" where
  "failing m w = (Inl (Exception m), w)"

definition flaky :: "nat \<Rightarrow> nat \<Rightarrow> (exn + string) \<times> nat" where
  "flaky n w = (if w < n then Inl (Exception ''boom'') else Inr ''ok'', Suc w)"

definition quiet_env :: "nat env" where
  "quiet_env =
     \<lparr>random_uniform = (\<lambda>k. 1 / 2),
      uuid4 = (\<lambda>w. (''uid'', w)),
      playlist_tracks = (\<lambda>playlist_id w. (Inl (Exception ''catalog unavailable''), Suc w)),
      youtube_search = (\<lambda>query w. (Inr (Some []), Suc w)),
      extract_info = (\<lambda>query w. (Inr (Some []), Suc w)),
      ydl_download = (\<lambda>url p w. (Inl (Exception ''download failed''), Suc w)),
      audio_from_file = (\<lambda>p w. (Inl (Exception ''cannot decode''), Suc w)),
      audio_export = (\<lambda>a p w. (Inl (Exception ''cannot encode''), Suc w)),
      opened_at = (\<lambda>w. 55)\<rparr>"

text \<open>
  A catalog of two pages with one track each, and services for it: the search API finds
  the first track only, the fallback finds nothing, downloads and transcodes succeed.
\<close>

definition demo_page :: paging where
  "demo_page = Paging [Some (SpTrack ''Song A'' [''Artist X'', ''Artist Z''])]
                 (Some (Inr (Paging [Some (SpTrack ''Song B'' [''Artist Y''])] None)))"

definition demo_env :: "nat env" where
  "demo_env =
     \<lparr>random_uniform = (\<lambda>k. 1 / 2),
      uuid4 = (\<lambda>w. (''uid'', w)),
      playlist_tracks = (\<lambda>playlist_id w. (Inr demo_page, Suc w)),
      youtube_search = (\<lambda>query w.
         (if query = ''Song A Artist X'' then Inr (Some [Some ''idA'']) else Inr (Some []), Suc w)),
      extract_info = (\<lambda>query w. (Inr (Some []), Suc w)),
      ydl_download = (\<lambda>url p w. (Inr 50, Suc w)),
      audio_from_file = (\<lambda>p w. (Inr (AudioSegment []), Suc w)),
      audio_export = (\<lambda>a p w. (Inr 60, Suc w)),
      opened_at = (\<lambda>w. 55)\<rparr>"

definition raw_storage :: storage where
  "raw_storage = [(''uid'', Folder [(''song.webm'', RegFile 50)])]"

text \<open>The same services with an encoder that raises.\<close>

definition no_encoder_env :: "nat env" where
  "no_encoder_env =
     demo_env\<lparr>audio_export := (\<lambda>a p w. (Inl (Exception ''cannot encode''), Suc w))\<rparr>"

text \<open>
  The requests of the primary search that the wrapper of \<open>search_youtube_api\<close> makes,
  followed from the state \<open>w\<close> of the outside world: \<open>zero_results_each n\<close> says that
  each of the first \<open>n\<close> returns a response without items.
\<close>

fun zero_results_each :: "nat \<Rightarrow> 'w env \<Rightarrow> string \<Rightarrow> 'w \<Rightarrow> bool" where
  "zero_results_each 0 env query w = True"
| "zero_results_each (Suc n) env query w =
     (case youtube_search env query w of
        (Inr r, w') \<Rightarrow> (r = None \<or> r = Some []) \<and> zero_results_each n env query w'
      | (Inl e, w') \<Rightarrow> False)"

text \<open>
  The arguments of the calls of the decorated function \<open>name\<close> that a trace records,
  in order.
\<close>

fun invoked :: "string \<Rightarrow> event list \<Rightarrow> string list list" where
  "invoked name [] = []"
| "invoked name (Invoke n a # evs) = (if n = name then a # invoked name evs else invoked name evs)"
| "invoked name (Extern n a # evs) = invoked name evs"


section \<open>Properties of the session store\<close>

lemma zip_write_members:
  "zip_write f names acc =
     acc @ map (\<lambda>n. (n, (f, n))) (filter (\<lambda>n. endswith n ''.mp3'') names)"
  by (induction names arbitrary: acc) simp_all

lemma list_files_folder:
  "map_of (storage s) user_id = Some (Folder es) \<Longrightarrow>
   list_files user_id s = (Inr (JsonFiles (filter (\<lambda>f. endswith f ''.mp3'') (map fst es))), s)"
  by (simp add: list_files_def os_path_exists_def listdir_path_def os_listdir_def)

lemma list_files_missing:
  "map_of (storage s) user_id = None \<Longrightarrow> user_id \<noteq> ''.'' \<Longrightarrow> user_id \<noteq> ''..'' \<Longrightarrow>
   list_files user_id s = (Inr not_found, s)"
  by (simp add: list_files_def os_path_exists_def)

lemma list_files_non_dir:
  "map_of (storage s) user_id = Some NonDir \<Longrightarrow>
   list_files user_id s = (Inl (NotADirectoryError user_id), s)"
  by (simp add: list_files_def os_path_exists_def listdir_path_def os_listdir_def)

lemma download_all_missing:
  "map_of (storage s) user_id = None \<Longrightarrow> user_id \<noteq> ''.'' \<Longrightarrow> user_id \<noteq> ''..'' \<Longrightarrow>
   download_all user_id s = (Inr not_found, s)"
  by (simp add: download_all_def os_path_exists_def)

lemma download_all_folder:
  "map_of (storage s) user_id = Some (Folder es) \<Longrightarrow>
   download_all user_id s =
     (Inr (ZipAttachment (user_id @ ''_songs.zip'')
        (map (\<lambda>n. (n, (user_id, n))) (filter (\<lambda>f. endswith f ''.mp3'') (map fst es)))), s)"
  by (simp add: download_all_def os_path_exists_def listdir_path_def os_listdir_def
        zip_write_members)

lemma download_all_non_dir:
  "map_of (storage s) user_id = Some NonDir \<Longrightarrow>
   download_all user_id s = (Inl (NotADirectoryError user_id), s)"
  by (simp add: download_all_def os_path_exists_def listdir_path_def os_listdir_def)

text \<open>
  Claim C7, a failing input. The root holds a file \<^verbatim>\<open>.gitkeep\<close> beside a session folder,
  and the request names it. No directory of that name exists, yet \<open>list_files\<close> does
  not answer with the not-found message: the path exists, so the test of line 176 lets
  it pass, and \<^verbatim>\<open>os.listdir\<close> raises on the file. The sweeper, which meets the same
  entry in its cycle, tests \<^verbatim>\<open>os.path.isdir\<close> (line 61) and passes over it.
\<close>

theorem list_files_non_directory:
  "\<not> os_path_isdir stray_storage ''.gitkeep'' \<and>
   list_files ''.gitkeep'' (init_state stray_storage ()) =
     (Inl (NotADirectoryError ''.gitkeep''), init_state stray_storage ()) \<and>
   fst (cleanup_cycle (10 * day) (init_state stray_storage ())) = Inr ()"
  by (simp add: list_files_def os_path_exists_def listdir_path_def os_listdir_def
        os_path_isdir_def folder_of_def file_at_def cleanup_cycle_def os_remove_def
        os_rmdir_def set_folder_def unlink_def logging_def sleep_def Let_def
        init_state_def stray_storage_def max_age_def day_def)

text \<open>
  Claim C8, a failing input, from the same defect as the one of C7. With the file
  \<^verbatim>\<open>.gitkeep\<close> in the root and a request that names it, no directory of that name
  exists, yet \<open>download_all\<close> does not answer with the not-found message: the test of
  line 185 lets the path pass because it exists, and \<^verbatim>\<open>os.listdir\<close> raises on the file.
\<close>

theorem download_all_non_directory:
  "\<not> os_path_isdir stray_storage ''.gitkeep'' \<and>
   download_all ''.gitkeep'' (init_state stray_storage ()) =
     (Inl (NotADirectoryError ''.gitkeep''), init_state stray_storage ())"
  by (simp add: download_all_def os_path_exists_def listdir_path_def os_listdir_def
        os_path_isdir_def folder_of_def Let_def init_state_def stray_storage_def)

text \<open>
  Claim C10. For a session directory that exists and holds no name ending in
  \<^verbatim>\<open>.mp3\<close>, \<open>download_all\<close> succeeds with an archive that has no members; it neither
  raises nor answers with the not-found message.
\<close>

theorem download_all_empty:
  assumes "map_of (storage s) user_id = Some (Folder es)"
      and "\<forall>n \<in> fst ` set es. \<not> endswith n ''.mp3''"
  shows "download_all user_id s = (Inr (ZipAttachment (user_id @ ''_songs.zip'') []), s) \<and>
         ZipAttachment (user_id @ ''_songs.zip'') [] \<noteq> not_found"
proof -
  have "filter (\<lambda>f. endswith f ''.mp3'') (map fst es) = []"
    using assms(2) by (auto simp: filter_empty_conv)
  with download_all_folder[OF assms(1)] show ?thesis by (simp add: not_found_def)
qed

theorem download_all_empty_witness:
  "download_all ''s2'' (init_state demo_storage ()) =
     (Inr (ZipAttachment ''s2_songs.zip'' []), init_state demo_storage ())"
  using download_all_empty[of "init_state demo_storage ()" "''s2''"
          "[(''c.webm'', RegFile 5), (''notes'', NonFile)]"]
  by (simp add: init_state_def demo_storage_def endswith_def)

section \<open>Properties of the retention sweeper\<close>

lemma map_of_set_folder:
  "map_of (set_folder f es st) g =
     (if g = f \<and> map_of st f \<noteq> None then Some (Folder es) else map_of st g)"
  by (induction st) (auto simp: set_folder_def)

lemma map_of_unlink: "map_of (unlink n xs) m = (if m = n then None else map_of xs m)"
  by (induction xs) (auto simp: unlink_def)

lemma folder_of_set_folder:
  "folder_of st f = Some es0 \<Longrightarrow> folder_of (set_folder f es st) g = (if g = f then Some es else folder_of st g)"
  by (auto simp: folder_of_def map_of_set_folder split: option.splits root_entry.splits)

lemma distinct_unlink: "distinct (map fst xs) \<Longrightarrow> distinct (map fst (unlink n xs))"
  by (simp add: unlink_def distinct_map_filter)

lemma map_of_distinct_eq:
  "distinct (map fst es) \<Longrightarrow> p \<in> set es \<Longrightarrow> map_of es (fst p) = Some (snd p)"
  by (cases p) simp

lemma cleanup_files_spec:
  assumes "folder_of (storage s) f = Some es" "distinct (map fst es)"
  shows "\<exists>s'. cleanup_files now f ns s = (Inr (), s') \<and>
           folder_of (storage s') f = Some (filter (\<lambda>p. fst p \<notin> set ns \<or> \<not> expired now (snd p)) es) \<and>
           (\<forall>g. g \<noteq> f \<longrightarrow> map_of (storage s') g = map_of (storage s) g) \<and>
           slept s' = slept s \<and> ext s' = ext s \<and> trace s' = trace s \<and> draws s' = draws s"
  using assms
proof (induction ns arbitrary: s es)
  case Nil
  then show ?case by simp
next
  case (Cons n ns)
  have fa: "file_at (storage s) (f, n) = map_of es n"
    by (simp add: file_at_def Cons.prems(1))
  show ?case
  proof (cases "\<exists>t. map_of es n = Some (RegFile t) \<and> now - t > max_age")
    case True
    then obtain t where t: "map_of es n = Some (RegFile t)" "now - t > max_age" by blast
    let ?st = "set_folder f (unlink n es) (storage s)"
    let ?s1 = "logging INFO (DeletedOldFile (f, n)) (s\<lparr>storage := ?st\<rparr>)"
    have rm: "os_remove (f, n) (storage s) = Inr ?st"
      by (simp add: os_remove_def Cons.prems(1) t)
    have step: "cleanup_files now f (n # ns) s = cleanup_files now f ns ?s1"
      by (simp add: fa t rm)
    have fo: "folder_of (storage ?s1) f = Some (unlink n es)"
      by (simp add: logging_def folder_of_set_folder[OF Cons.prems(1)])
    from Cons.IH[OF fo distinct_unlink[OF Cons.prems(2)]] obtain s' where
      s': "cleanup_files now f ns ?s1 = (Inr (), s')"
          "folder_of (storage s') f = Some (filter (\<lambda>p. fst p \<notin> set ns \<or> \<not> expired now (snd p)) (unlink n es))"
          "\<forall>g. g \<noteq> f \<longrightarrow> map_of (storage s') g = map_of (storage ?s1) g"
          "slept s' = slept ?s1" "ext s' = ext ?s1" "trace s' = trace ?s1" "draws s' = draws ?s1"
      by blast
    have eq: "filter (\<lambda>p. fst p \<notin> set ns \<or> \<not> expired now (snd p)) (unlink n es) =
              filter (\<lambda>p. fst p \<notin> set (n # ns) \<or> \<not> expired now (snd p)) es"
      unfolding unlink_def filter_filter
    proof (rule filter_cong[OF refl])
      fix p assume p: "p \<in> set es"
      show "(fst p \<noteq> n \<and> (fst p \<notin> set ns \<or> \<not> expired now (snd p))) =
            (fst p \<notin> set (n # ns) \<or> \<not> expired now (snd p))"
      proof (cases "fst p = n")
        case True
        with map_of_distinct_eq[OF Cons.prems(2) p] t have "snd p = RegFile t" by simp
        then have "expired now (snd p)" using t by (simp add: expired_def)
        with True show ?thesis by simp
      next
        case False
        then show ?thesis by auto
      qed
    qed
    have fo': "folder_of (storage s') f =
                 Some (filter (\<lambda>p. fst p \<notin> set (n # ns) \<or> \<not> expired now (snd p)) es)"
      using s'(2) by (simp only: eq)
    show ?thesis
      unfolding step using s'(1,3-) fo'
      by (intro exI[of _ s']) (simp add: logging_def map_of_set_folder)
  next
    case False
    have step: "cleanup_files now f (n # ns) s = cleanup_files now f ns s"
      using False by (auto simp: fa Let_def split: option.splits entry.splits)
    from Cons.IH[OF Cons.prems] obtain s' where
      s': "cleanup_files now f ns s = (Inr (), s')"
          "folder_of (storage s') f = Some (filter (\<lambda>p. fst p \<notin> set ns \<or> \<not> expired now (snd p)) es)"
          "\<forall>g. g \<noteq> f \<longrightarrow> map_of (storage s') g = map_of (storage s) g"
          "slept s' = slept s" "ext s' = ext s" "trace s' = trace s" "draws s' = draws s"
      by blast
    have eq: "filter (\<lambda>p. fst p \<notin> set ns \<or> \<not> expired now (snd p)) es =
              filter (\<lambda>p. fst p \<notin> set (n # ns) \<or> \<not> expired now (snd p)) es"
    proof (rule filter_cong[OF refl])
      fix p assume p: "p \<in> set es"
      show "(fst p \<notin> set ns \<or> \<not> expired now (snd p)) =
            (fst p \<notin> set (n # ns) \<or> \<not> expired now (snd p))"
      proof (cases "fst p = n")
        case True
        with map_of_distinct_eq[OF Cons.prems(2) p] have "map_of es n = Some (snd p)" by simp
        with False have "\<not> expired now (snd p)" by (auto simp: expired_def split: entry.splits)
        then show ?thesis by simp
      next
        case False
        then show ?thesis by auto
      qed
    qed
    have fo': "folder_of (storage s') f =
                 Some (filter (\<lambda>p. fst p \<notin> set (n # ns) \<or> \<not> expired now (snd p)) es)"
      using s'(2) by (simp only: eq)
    show ?thesis
      unfolding step using s'(1,3-) fo' by (intro exI[of _ s']) simp
  qed
qed


lemma survivors_idem: "survivors now (survivors now es) = survivors now es"
  by (simp add: survivors_def)

lemma sweep_idem: "sweep now (sweep now r) = sweep now r"
  by (auto simp: sweep_def survivors_idem split: option.splits root_entry.splits)

lemma distinct_survivors: "distinct (map fst es) \<Longrightarrow> distinct (map fst (survivors now es))"
  by (simp add: survivors_def distinct_map_filter)

lemma cleanup_folder_step:
  assumes "wf_storage (storage s)"
  shows "\<exists>s1. cleanup_folders now (g # fs) s = cleanup_folders now fs s1 \<and>
           (\<forall>f. map_of (storage s1) f =
                (if f = g then sweep now (map_of (storage s) g) else map_of (storage s) f)) \<and>
           wf_storage (storage s1) \<and>
           slept s1 = slept s \<and> ext s1 = ext s \<and> trace s1 = trace s \<and> draws s1 = draws s"
proof (cases "map_of (storage s) g")
  case None
  then have "cleanup_folders now (g # fs) s = cleanup_folders now fs s"
    by (simp add: os_path_isdir_def folder_of_def)
  then show ?thesis using assms None by (intro exI[of _ s]) (simp add: sweep_def)
next
  case (Some r)
  show ?thesis
  proof (cases r)
    case NonDir
    with Some have "cleanup_folders now (g # fs) s = cleanup_folders now fs s"
      by (simp add: os_path_isdir_def folder_of_def)
    then show ?thesis using assms Some NonDir by (intro exI[of _ s]) (simp add: sweep_def)
  next
    case (Folder es)
    with Some have m: "map_of (storage s) g = Some (Folder es)" by simp
    then have fo: "folder_of (storage s) g = Some es" by (simp add: folder_of_def)
    have d: "distinct (map fst es)" using assms m by (simp add: wf_storage_def)
    from cleanup_files_spec[OF fo d, of now "map fst es"] obtain s1 where
      s1: "cleanup_files now g (map fst es) s = (Inr (), s1)"
          "folder_of (storage s1) g = Some (filter (\<lambda>p. fst p \<notin> set (map fst es) \<or> \<not> expired now (snd p)) es)"
          "\<forall>f. f \<noteq> g \<longrightarrow> map_of (storage s1) f = map_of (storage s) f"
          "slept s1 = slept s" "ext s1 = ext s" "trace s1 = trace s" "draws s1 = draws s"
      by blast
    have "filter (\<lambda>p. fst p \<notin> set (map fst es) \<or> \<not> expired now (snd p)) es = survivors now es"
      unfolding survivors_def by (rule filter_cong) auto
    with s1(2) have fo1: "folder_of (storage s1) g = Some (survivors now es)" by simp
    then have m1: "map_of (storage s1) g = Some (Folder (survivors now es))"
      by (auto simp: folder_of_def split: option.splits root_entry.splits)
    have ld: "os_listdir (storage s) g = Inr (map fst es)" by (simp add: os_listdir_def m)
    have ld1: "os_listdir (storage s1) g = Inr (map fst (survivors now es))"
      by (simp add: os_listdir_def m1)
    have isd: "os_path_isdir (storage s) g" by (simp add: os_path_isdir_def fo)
    show ?thesis
    proof (cases "survivors now es = []")
      case True
      let ?s2 = "s1\<lparr>storage := unlink g (storage s1)\<rparr>"
      have rm: "os_rmdir g (storage s1) = Inr (unlink g (storage s1))"
        by (simp add: os_rmdir_def m1 True)
      have step: "cleanup_folders now (g # fs) s = cleanup_folders now fs ?s2"
        by (simp add: isd ld s1(1) ld1 True rm)
      have maps: "\<forall>f. map_of (storage ?s2) f =
                (if f = g then sweep now (map_of (storage s) g) else map_of (storage s) f)"
        using s1(3) by (simp add: map_of_unlink m sweep_def True)
      have "wf_storage (storage ?s2)"
        unfolding wf_storage_def
      proof (intro allI impI)
        fix f es' assume a: "map_of (storage ?s2) f = Some (Folder es')"
        have "f \<noteq> g" using a by (auto simp: map_of_unlink)
        with a s1(3) have "map_of (storage s) f = Some (Folder es')" by (simp add: map_of_unlink)
        then show "distinct (map fst es')" using assms by (simp add: wf_storage_def)
      qed
      then show ?thesis
        using step maps s1(4-) by (intro exI[of _ ?s2]) simp
    next
      case False
      have step: "cleanup_folders now (g # fs) s = cleanup_folders now fs s1"
        by (simp add: isd ld s1(1) ld1 False)
      have maps: "\<forall>f. map_of (storage s1) f =
                (if f = g then sweep now (map_of (storage s) g) else map_of (storage s) f)"
        using s1(3) by (simp add: m1 m sweep_def False)
      have "wf_storage (storage s1)"
        unfolding wf_storage_def
      proof (intro allI impI)
        fix f es' assume a: "map_of (storage s1) f = Some (Folder es')"
        show "distinct (map fst es')"
        proof (cases "f = g")
          case True
          with a m1 have "es' = survivors now es" by simp
          then show ?thesis using d by (simp add: distinct_survivors)
        next
          case False
          with a s1(3) have "map_of (storage s) f = Some (Folder es')" by simp
          then show ?thesis using assms by (simp add: wf_storage_def)
        qed
      qed
      then show ?thesis
        using step maps s1(4-) by (intro exI[of _ s1]) simp
    qed
  qed
qed

lemma cleanup_folders_spec:
  assumes "wf_storage (storage s)"
  shows "\<exists>s'. cleanup_folders now fs s = (Inr (), s') \<and>
           (\<forall>f. map_of (storage s') f =
                (if f \<in> set fs then sweep now (map_of (storage s) f) else map_of (storage s) f)) \<and>
           slept s' = slept s \<and> ext s' = ext s \<and> trace s' = trace s \<and> draws s' = draws s"
  using assms
proof (induction fs arbitrary: s)
  case Nil
  then show ?case by simp
next
  case (Cons g fs)
  from cleanup_folder_step[OF Cons.prems, of now g fs] obtain s1 where
    s1: "cleanup_folders now (g # fs) s = cleanup_folders now fs s1"
        "\<forall>f. map_of (storage s1) f =
                (if f = g then sweep now (map_of (storage s) g) else map_of (storage s) f)"
        "wf_storage (storage s1)"
        "slept s1 = slept s" "ext s1 = ext s" "trace s1 = trace s" "draws s1 = draws s"
    by blast
  from Cons.IH[OF s1(3)] obtain s' where
    s': "cleanup_folders now fs s1 = (Inr (), s')"
        "\<forall>f. map_of (storage s') f =
                (if f \<in> set fs then sweep now (map_of (storage s1) f) else map_of (storage s1) f)"
        "slept s' = slept s1" "ext s' = ext s1" "trace s' = trace s1" "draws s' = draws s1"
    by blast
  show ?case
    unfolding s1(1) using s'(1,3-) s1(4-) s'(2) s1(2)
    by (intro exI[of _ s']) (simp add: sweep_idem)
qed

lemma cleanup_cycle_sweeps:
  assumes "wf_storage (storage s)"
  shows "\<exists>s'. cleanup_cycle now s = (Inr (), s') \<and>
           (\<forall>f. map_of (storage s') f = sweep now (map_of (storage s) f)) \<and>
           slept s' = slept s @ [3600]"
proof -
  from cleanup_folders_spec[OF assms, of now "map fst (storage s)"] obtain s1 where
    s1: "cleanup_folders now (map fst (storage s)) s = (Inr (), s1)"
        "\<forall>f. map_of (storage s1) f =
                (if f \<in> set (map fst (storage s)) then sweep now (map_of (storage s) f)
                 else map_of (storage s) f)"
        "slept s1 = slept s"
    by blast
  have "\<forall>f. map_of (storage s1) f = sweep now (map_of (storage s) f)"
  proof
    fix f
    show "map_of (storage s1) f = sweep now (map_of (storage s) f)"
    proof (cases "f \<in> set (map fst (storage s))")
      case True
      with s1(2) show ?thesis by simp
    next
      case False
      then have "map_of (storage s) f = None" by (simp add: map_of_eq_None_iff)
      with s1(2) False show ?thesis by (simp add: sweep_def)
    qed
  qed
  then show ?thesis
    using s1(1,3) by (intro exI[of _ "sleep 3600 s1"]) (simp add: cleanup_cycle_def sleep_def)
qed

lemma distinct_names_wf: "distinct_names st \<Longrightarrow> wf_storage st"
  unfolding distinct_names_def wf_storage_def
  by (auto dest!: map_of_SomeD split: root_entry.splits)

lemma map_of_filter_distinct:
  "distinct (map fst es) \<Longrightarrow> p \<in> set es \<Longrightarrow>
   map_of (filter P es) (fst p) = (if P p then Some (snd p) else None)"
proof (induction es)
  case Nil
  then show ?case by simp
next
  case (Cons q es)
  show ?case
  proof (cases "p = q")
    case True
    have "fst q \<notin> fst ` set (filter P es)" using Cons.prems(1) by auto
    then have "map_of (filter P es) (fst q) = None" by (simp add: map_of_eq_None_iff)
    then show ?thesis using True by (cases q) auto
  next
    case False
    with Cons.prems have p: "p \<in> set es" and d: "distinct (map fst es)" by auto
    from Cons.prems p have "fst p \<noteq> fst q" by (auto simp: image_iff)
    then show ?thesis using Cons.IH[OF d p] by (cases q) auto
  qed
qed

text \<open>
  Claim C4. One cycle of the sweeper, on a storage whose directories hold no name twice,
  returns normally, and for every session directory \<open>f\<close> with listing \<open>es\<close>:
  an entry of \<open>es\<close> is absent afterwards if and only if it is a regular file whose age
  \<open>now - mtime\<close> is greater than \<open>max_age\<close> (five days); and the directory itself is
  absent afterwards if and only if no entry survives, that is, it is empty once its
  files have been evaluated; otherwise it holds exactly the surviving entries.
\<close>

theorem cleanup_cycle_retention:
  assumes "distinct_names (storage s)" and "map_of (storage s) f = Some (Folder es)"
  shows "fst (cleanup_cycle now s) = Inr () \<and>
         (\<forall>p \<in> set es. (file_at (storage (snd (cleanup_cycle now s))) (f, fst p) = None)
                        = expired now (snd p)) \<and>
         ((map_of (storage (snd (cleanup_cycle now s))) f = None) = (survivors now es = [])) \<and>
         (survivors now es \<noteq> [] \<longrightarrow>
            map_of (storage (snd (cleanup_cycle now s))) f = Some (Folder (survivors now es)))"
proof -
  have wf: "wf_storage (storage s)" using assms(1) by (rule distinct_names_wf)
  then have d: "distinct (map fst es)" using assms(2) by (simp add: wf_storage_def)
  from cleanup_cycle_sweeps[OF wf, of now] obtain s' where
    s': "cleanup_cycle now s = (Inr (), s')"
        "\<forall>f. map_of (storage s') f = sweep now (map_of (storage s) f)" by blast
  have m: "map_of (storage s') f =
            (if survivors now es = [] then None else Some (Folder (survivors now es)))"
    using s'(2) assms(2) by (simp add: sweep_def)
  have files: "\<forall>p \<in> set es. (file_at (storage s') (f, fst p) = None) = expired now (snd p)"
  proof
    fix p assume p: "p \<in> set es"
    show "(file_at (storage s') (f, fst p) = None) = expired now (snd p)"
    proof (cases "survivors now es = []")
      case True
      then have "expired now (snd p)" using p by (auto simp: survivors_def filter_empty_conv)
      then show ?thesis using m True by (simp add: file_at_def folder_of_def)
    next
      case False
      then have "file_at (storage s') (f, fst p) = map_of (survivors now es) (fst p)"
        using m by (simp add: file_at_def folder_of_def)
      then show ?thesis
        unfolding survivors_def using map_of_filter_distinct[OF d p] by simp
    qed
  qed
  show ?thesis using s'(1) m files by simp
qed

theorem cleanup_cycle_retention_witness:
  "fst (cleanup_cycle (10 * day) (init_state sweep_storage ())) = Inr () \<and>
   file_at (storage (snd (cleanup_cycle (10 * day) (init_state sweep_storage ())))) (''s1'', ''old.mp3'') = None \<and>
   file_at (storage (snd (cleanup_cycle (10 * day) (init_state sweep_storage ())))) (''s1'', ''new.mp3'') \<noteq> None \<and>
   map_of (storage (snd (cleanup_cycle (10 * day) (init_state sweep_storage ())))) ''s1'' =
     Some (Folder [(''new.mp3'', RegFile (6 * day))]) \<and>
   map_of (storage (snd (cleanup_cycle (10 * day) (init_state sweep_storage ())))) ''s2'' = None"
  using cleanup_cycle_retention[of "init_state sweep_storage ()" "''s1''"
          "[(''old.mp3'', RegFile (4 * day)), (''new.mp3'', RegFile (6 * day))]" "10 * day"]
        cleanup_cycle_retention[of "init_state sweep_storage ()" "''s2''"
          "[(''gone.mp3'', RegFile 0)]" "10 * day"]
  by (simp add: init_state_def sweep_storage_def distinct_names_def survivors_def expired_def
        max_age_def day_def)

section \<open>Properties of the retry decorator\<close>

lemma wrapper_exhausted:
  "\<not> attempt < retries \<Longrightarrow>
   wrapper env retries b jitter name func attempt s =
     (Inl (Exception (name @ '' failed after '' @ str_int retries @ '' retries.'')), s)"
  by (subst wrapper.simps) simp

lemma wrapper_success:
  "attempt < retries \<Longrightarrow> func s = (Inr v, s1) \<Longrightarrow>
   wrapper env retries b jitter name func attempt s = (Inr v, s1)"
  by (subst wrapper.simps) simp

lemma wrapper_failure:
  "attempt < retries \<Longrightarrow> func s = (Inl e, s1) \<Longrightarrow>
   wrapper env retries b jitter name func attempt s =
     wrapper env retries b jitter name func (attempt + 1) (backoff env b jitter name e (attempt + 1) s1)"
  by (subst wrapper.simps) (simp add: backoff_def delay_of_def uniform_def Let_def)

lemma backoff_fields [simp]:
  "slept (backoff env b jitter name e a s) = slept s @ [delay_of env b jitter a s]"
  "draws (backoff env b jitter name e a s) = (if jitter then Suc (draws s) else draws s)"
  "storage (backoff env b jitter name e a s) = storage s"
  "ext (backoff env b jitter name e a s) = ext s"
  "trace (backoff env b jitter name e a s) = trace s"
  "logged (backoff env b jitter name e a s) =
     logged s @ [(WARNING, Retrying name (str_exn e) (delay_of env b jitter a s))]"
  by (simp_all add: backoff_def sleep_def logging_def Let_def)

lemma extern_result:
  "op (ext s) = (r, w) \<Longrightarrow>
   extern n a op s = (r, record_event (Extern n a) (s\<lparr>ext := w\<rparr>))"
  by (simp add: extern_def)


lemma wrapper_raises_each:
  "raises_each n env b jitter name func attempt s \<Longrightarrow>
   n = nat (retries - attempt) \<Longrightarrow> 0 \<le> attempt \<Longrightarrow>
     fst (wrapper env retries b jitter name func attempt s) =
        Inl (Exception (name @ '' failed after '' @ str_int retries @ '' retries.'')) \<and>
     slept (snd (wrapper env retries b jitter name func attempt s)) =
        slept s @ map (\<lambda>k. b ^ (nat attempt + Suc k) + jitter_at env jitter (draws s) k) [0..<n]"
proof (induction n arbitrary: attempt s)
  case 0
  then have "\<not> attempt < retries" by simp
  then show ?case using 0 by (simp add: wrapper_exhausted)
next
  case (Suc n)
  then have lt: "attempt < retries" by simp
  from Suc.prems(1) obtain e s1 where
    f: "func s = (Inl e, s1)" and
    k: "slept s1 = slept s" "draws s1 = draws s" and
    r: "raises_each n env b jitter name func (attempt + 1)
          (backoff env b jitter name e (attempt + 1) s1)"
    by (auto split: prod.splits sum.splits)
  let ?s2 = "backoff env b jitter name e (attempt + 1) s1"
  have n: "n = nat (retries - (attempt + 1))" using Suc.prems by simp
  have a: "0 \<le> attempt + 1" using Suc.prems by simp
  note IH = Suc.IH[OF r n a]
  have na: "nat (attempt + 1) = Suc (nat attempt)" using Suc.prems by simp
  have d: "delay_of env b jitter (attempt + 1) s1 =
             b ^ (nat attempt + Suc 0) + jitter_at env jitter (draws s) 0"
    by (simp add: delay_of_def jitter_at_def na k)
  have j: "\<And>i. jitter_at env jitter (if jitter then Suc (draws s1) else draws s1) i =
               jitter_at env jitter (draws s) (Suc i)"
    by (simp add: jitter_at_def k)
  have w: "wrapper env retries b jitter name func attempt s =
           wrapper env retries b jitter name func (attempt + 1) ?s2"
    using lt f by (rule wrapper_failure)
  show ?case
    unfolding w using IH by (simp add: k d j na map_upt_Suc del: upt_Suc)
qed

text \<open>
  Claim C9. When the wrapped operation raises in each of the \<open>retries\<close> calls that the
  wrapper makes (and neither sleeps nor draws random numbers in them itself), the
  wrapper sleeps after every failure, the last one included: it records exactly
  \<open>retries\<close> delays and then raises the exhaustion error. The \<open>k\<close>-th delay, counted
  from 1, is \<open>backoff_factor ^ k\<close> plus its jitter, which is 0 without jitter and
  otherwise the value drawn, in \<open>[0, 1)\<close> when \<^verbatim>\<open>random.uniform(0, 1)\<close> returns such
  values.
\<close>

theorem retry_exhaustion_delays:
  assumes fails: "raises_each (nat retries) env b jitter name func 0
                    (record_event (Invoke name args) s)"
      and range: "\<And>k. 0 \<le> random_uniform env k \<and> random_uniform env k < 1"
  shows "fst (retry_on_failure env retries b jitter name args func s) =
           Inl (Exception (name @ '' failed after '' @ str_int retries @ '' retries.'')) \<and>
         slept (snd (retry_on_failure env retries b jitter name args func s)) =
           slept s @ map (\<lambda>k. b ^ Suc k + jitter_at env jitter (draws s) k) [0..<nat retries] \<and>
         (\<forall>k. 0 \<le> jitter_at env jitter (draws s) k \<and> jitter_at env jitter (draws s) k < 1 \<and>
              (\<not> jitter \<longrightarrow> jitter_at env jitter (draws s) k = 0))"
  using wrapper_raises_each[OF fails, of retries] range
  by (simp add: retry_on_failure_def record_event_def jitter_at_def)

theorem retry_exhaustion_delays_witness:
  "fst (retry_on_failure quiet_env 3 2 True ''op'' [] (extern ''op'' [] (flaky 5))
          (init_state [] 0)) = Inl (Exception ''op failed after 3 retries.'') \<and>
   slept (snd (retry_on_failure quiet_env 3 2 True ''op'' [] (extern ''op'' [] (flaky 5))
          (init_state [] 0))) = [5 / 2, 9 / 2, 17 / 2]"
proof -
  have f: "raises_each (nat 3) quiet_env 2 True ''op'' (extern ''op'' [] (flaky 5)) 0
             (record_event (Invoke ''op'' []) (init_state [] 0))"
    by (simp add: numeral_3_eq_3 extern_def flaky_def record_event_def init_state_def
          backoff_def sleep_def logging_def Let_def)
  have r: "\<And>k. 0 \<le> random_uniform quiet_env k \<and> random_uniform quiet_env k < 1"
    by (simp add: quiet_env_def)
  have three: "str_int 3 = ''3''" by code_simp
  have upt: "[0..<3] = [0::nat, 1, 2]" by code_simp
  show ?thesis
    using retry_exhaustion_delays[of 3 quiet_env 2 True "''op''" "extern ''op'' [] (flaky 5)"
            "[]" "init_state [] 0", OF f r]
    by (simp add: three upt jitter_at_def quiet_env_def init_state_def)
qed

lemma retry_third_attempt:
  assumes "op w0 = (Inl e1, w1)" "op w1 = (Inl e2, w2)" "op w2 = (Inr v, w3)" "ext s = w0"
  shows "fst (retry_on_failure env 3 b jitter name args (extern n a op) s) = Inr v \<and>
         ext (snd (retry_on_failure env 3 b jitter name args (extern n a op) s)) = w3 \<and>
         slept (snd (retry_on_failure env 3 b jitter name args (extern n a op) s)) =
           slept s @ [b ^ 1 + jitter_at env jitter (draws s) 0,
                      b ^ 2 + jitter_at env jitter (draws s) 1] \<and>
         trace (snd (retry_on_failure env 3 b jitter name args (extern n a op) s)) =
           trace s @ [Invoke name args, Extern n a, Extern n a, Extern n a] \<and>
         logged (snd (retry_on_failure env 3 b jitter name args (extern n a op) s)) =
           logged s @
           [(WARNING, Retrying name (str_exn e1) (b ^ 1 + jitter_at env jitter (draws s) 0)),
            (WARNING, Retrying name (str_exn e2) (b ^ 2 + jitter_at env jitter (draws s) 1))]"
proof -
  let ?f = "extern n a op"
  let ?s0 = "record_event (Invoke name args) s"
  let ?t1 = "record_event (Extern n a) (?s0\<lparr>ext := w1\<rparr>)"
  let ?s1 = "backoff env b jitter name e1 (0 + 1) ?t1"
  let ?t2 = "record_event (Extern n a) (?s1\<lparr>ext := w2\<rparr>)"
  let ?s2 = "backoff env b jitter name e2 (0 + 1 + 1) ?t2"
  let ?t3 = "record_event (Extern n a) (?s2\<lparr>ext := w3\<rparr>)"
  have f1: "?f ?s0 = (Inl e1, ?t1)"
    by (rule extern_result) (simp add: record_event_def assms)
  have f2: "?f ?s1 = (Inl e2, ?t2)"
    by (rule extern_result) (simp add: record_event_def assms)
  have f3: "?f ?s2 = (Inr v, ?t3)"
    by (rule extern_result) (simp add: record_event_def assms)
  have w1: "wrapper env 3 b jitter name ?f 0 ?s0 = wrapper env 3 b jitter name ?f (0 + 1) ?s1"
    using wrapper_failure[where attempt=0 and retries=3 and func="?f" and s="?s0", OF _ f1]
    by simp
  have w2: "wrapper env 3 b jitter name ?f (0 + 1) ?s1 =
            wrapper env 3 b jitter name ?f (0 + 1 + 1) ?s2"
    using wrapper_failure[where attempt="0 + 1" and retries=3 and func="?f" and s="?s1", OF _ f2]
    by simp
  have w3: "wrapper env 3 b jitter name ?f (0 + 1 + 1) ?s2 = (Inr v, ?t3)"
    using wrapper_success[where attempt="0 + 1 + 1" and retries=3 and func="?f" and s="?s2", OF _ f3]
    by simp
  have r: "retry_on_failure env 3 b jitter name args ?f s = (Inr v, ?t3)"
    unfolding retry_on_failure_def w1 w2 w3 ..
  show ?thesis
    unfolding r
    by (simp add: record_event_def delay_of_def jitter_at_def)
qed

lemma retry_three_failures:
  assumes "op w0 = (Inl e1, w1)" "op w1 = (Inl e2, w2)" "op w2 = (Inl e3, w3)" "ext s = w0"
  shows "fst (retry_on_failure env 3 b jitter name args (extern n a op) s) =
           Inl (Exception (name @ '' failed after 3 retries.'')) \<and>
         ext (snd (retry_on_failure env 3 b jitter name args (extern n a op) s)) = w3 \<and>
         slept (snd (retry_on_failure env 3 b jitter name args (extern n a op) s)) =
           slept s @ [b ^ 1 + jitter_at env jitter (draws s) 0,
                      b ^ 2 + jitter_at env jitter (draws s) 1,
                      b ^ 3 + jitter_at env jitter (draws s) 2] \<and>
         trace (snd (retry_on_failure env 3 b jitter name args (extern n a op) s)) =
           trace s @ [Invoke name args, Extern n a, Extern n a, Extern n a] \<and>
         logged (snd (retry_on_failure env 3 b jitter name args (extern n a op) s)) =
           logged s @
           [(WARNING, Retrying name (str_exn e1) (b ^ 1 + jitter_at env jitter (draws s) 0)),
            (WARNING, Retrying name (str_exn e2) (b ^ 2 + jitter_at env jitter (draws s) 1)),
            (WARNING, Retrying name (str_exn e3) (b ^ 3 + jitter_at env jitter (draws s) 2))]"
proof -
  let ?f = "extern n a op"
  let ?s0 = "record_event (Invoke name args) s"
  let ?t1 = "record_event (Extern n a) (?s0\<lparr>ext := w1\<rparr>)"
  let ?s1 = "backoff env b jitter name e1 (0 + 1) ?t1"
  let ?t2 = "record_event (Extern n a) (?s1\<lparr>ext := w2\<rparr>)"
  let ?s2 = "backoff env b jitter name e2 (0 + 1 + 1) ?t2"
  let ?t3 = "record_event (Extern n a) (?s2\<lparr>ext := w3\<rparr>)"
  let ?s3 = "backoff env b jitter name e3 (0 + 1 + 1 + 1) ?t3"
  have f1: "?f ?s0 = (Inl e1, ?t1)"
    by (rule extern_result) (simp add: record_event_def assms)
  have f2: "?f ?s1 = (Inl e2, ?t2)"
    by (rule extern_result) (simp add: record_event_def assms)
  have f3: "?f ?s2 = (Inl e3, ?t3)"
    by (rule extern_result) (simp add: record_event_def assms)
  have w1: "wrapper env 3 b jitter name ?f 0 ?s0 = wrapper env 3 b jitter name ?f (0 + 1) ?s1"
    using wrapper_failure[where attempt=0 and retries=3 and func="?f" and s="?s0", OF _ f1]
    by simp
  have w2: "wrapper env 3 b jitter name ?f (0 + 1) ?s1 =
            wrapper env 3 b jitter name ?f (0 + 1 + 1) ?s2"
    using wrapper_failure[where attempt="0 + 1" and retries=3 and func="?f" and s="?s1", OF _ f2]
    by simp
  have w3: "wrapper env 3 b jitter name ?f (0 + 1 + 1) ?s2 =
            wrapper env 3 b jitter name ?f (0 + 1 + 1 + 1) ?s3"
    using wrapper_failure[where attempt="0 + 1 + 1" and retries=3 and func="?f" and s="?s2", OF _ f3]
    by simp
  have three: "str_int 3 = ''3''" by code_simp
  have w4: "wrapper env 3 b jitter name ?f (0 + 1 + 1 + 1) ?s3 =
            (Inl (Exception (name @ '' failed after 3 retries.'')), ?s3)"
    using wrapper_exhausted[where attempt="0 + 1 + 1 + 1" and retries=3 and func="?f" and s="?s3"
            and env=env and b=b and jitter=jitter and name=name]
    by (simp add: three)
  have r: "retry_on_failure env 3 b jitter name args ?f s =
           (Inl (Exception (name @ '' failed after 3 retries.'')), ?s3)"
    unfolding retry_on_failure_def w1 w2 w3 w4 ..
  show ?thesis
    unfolding r
    by (simp add: record_event_def delay_of_def jitter_at_def)
qed

text \<open>
  Claim C3, amended. With \<open>retries = 3\<close>: for an operation that raises on its first two
  calls and returns \<open>v\<close> on the third, the wrapper returns \<open>v\<close> after exactly three
  calls and exactly two recorded delays; for an operation that raises on its first three
  calls, it raises after exactly three calls, and the error it raises is an
  \<open>Exception\<close> whose text is the name of the function followed by
  \<^verbatim>\<open>failed after 3 retries.\<close> The descriptions of the failures, the last one
  included, go to the log and nowhere else: each failure writes one warning with the
  description of that failure and the delay that follows it.
\<close>

theorem retry_three_attempts:
  assumes "op w0 = (Inl e1, w1)" "op w1 = (Inl e2, w2)" "op w2 = (Inr v, w3)" "ext s = w0"
      and "op' w0 = (Inl x1, v1)" "op' v1 = (Inl x2, v2)" "op' v2 = (Inl x3, v3)"
  shows "fst (retry_on_failure env 3 b jitter name args (extern n a op) s) = Inr v \<and>
         slept (snd (retry_on_failure env 3 b jitter name args (extern n a op) s)) =
           slept s @ [b ^ 1 + jitter_at env jitter (draws s) 0,
                      b ^ 2 + jitter_at env jitter (draws s) 1] \<and>
         trace (snd (retry_on_failure env 3 b jitter name args (extern n a op) s)) =
           trace s @ [Invoke name args, Extern n a, Extern n a, Extern n a] \<and>
         logged (snd (retry_on_failure env 3 b jitter name args (extern n a op) s)) =
           logged s @
           [(WARNING, Retrying name (str_exn e1) (b ^ 1 + jitter_at env jitter (draws s) 0)),
            (WARNING, Retrying name (str_exn e2) (b ^ 2 + jitter_at env jitter (draws s) 1))] \<and>
         fst (retry_on_failure env 3 b jitter name args (extern n a op') s) =
           Inl (Exception (name @ '' failed after 3 retries.'')) \<and>
         trace (snd (retry_on_failure env 3 b jitter name args (extern n a op') s)) =
           trace s @ [Invoke name args, Extern n a, Extern n a, Extern n a] \<and>
         logged (snd (retry_on_failure env 3 b jitter name args (extern n a op') s)) =
           logged s @
           [(WARNING, Retrying name (str_exn x1) (b ^ 1 + jitter_at env jitter (draws s) 0)),
            (WARNING, Retrying name (str_exn x2) (b ^ 2 + jitter_at env jitter (draws s) 1)),
            (WARNING, Retrying name (str_exn x3) (b ^ 3 + jitter_at env jitter (draws s) 2))]"
  using retry_third_attempt[OF assms(1-4), where env=env and b=b and jitter=jitter
          and name=name and args=args and n=n and a=a]
        retry_three_failures[OF assms(5-7) assms(4), where env=env and b=b and jitter=jitter
          and name=name and args=args and n=n and a=a]
  by simp

theorem retry_three_attempts_witness:
  "fst (retry_on_failure quiet_env 3 2 False ''op'' [] (extern ''op'' [] (flaky 2)) (init_state [] 0))
     = Inr ''ok'' \<and>
   slept (snd (retry_on_failure quiet_env 3 2 False ''op'' [] (extern ''op'' [] (flaky 2)) (init_state [] 0)))
     = [2, 4] \<and>
   fst (retry_on_failure quiet_env 3 2 False ''op'' [] (extern ''op'' [] (flaky 5)) (init_state [] 0))
     = Inl (Exception ''op failed after 3 retries.'') \<and>
   trace (snd (retry_on_failure quiet_env 3 2 False ''op'' [] (extern ''op'' [] (flaky 5)) (init_state [] 0)))
     = [Invoke ''op'' [], Extern ''op'' [], Extern ''op'' [], Extern ''op'' []] \<and>
   logged (snd (retry_on_failure quiet_env 3 2 False ''op'' [] (extern ''op'' [] (flaky 5)) (init_state [] 0)))
     = [(WARNING, Retrying ''op'' ''boom'' 2), (WARNING, Retrying ''op'' ''boom'' 4),
        (WARNING, Retrying ''op'' ''boom'' 8)]"
proof -
  have a: "flaky 2 0 = (Inl (Exception ''boom''), 1)" "flaky 2 1 = (Inl (Exception ''boom''), 2)"
          "flaky 2 2 = (Inr ''ok'', 3)" "ext (init_state [] (0::nat)) = 0"
    by (simp_all add: flaky_def init_state_def)
  have f: "flaky 5 0 = (Inl (Exception ''boom''), 1)" "flaky 5 1 = (Inl (Exception ''boom''), 2)"
          "flaky 5 2 = (Inl (Exception ''boom''), 3)"
    by (simp_all add: flaky_def)
  show ?thesis
    using retry_three_attempts[where op="flaky 2" and op'="flaky 5" and env=quiet_env
            and b=2 and jitter=False and name="''op''" and args="[]" and n="''op''" and a="[]"
            and s="init_state [] 0", OF a f]
    by (simp add: jitter_at_def init_state_def)
qed

text \<open>
  The exhaustion error does not carry the description of the last failure: an operation
  that always raises \<^verbatim>\<open>boom\<close> exhausts to a text in which \<^verbatim>\<open>boom\<close> does not occur,
  while the log holds it.
\<close>

theorem retry_error_counterexample:
  "fst (retry_on_failure quiet_env 3 2 False ''op'' [] (extern ''op'' [] (failing ''boom''))
          (init_state [] 0)) = Inl (Exception ''op failed after 3 retries.'') \<and>
   \<not> contains ''op failed after 3 retries.'' ''boom'' \<and>
   logged (snd (retry_on_failure quiet_env 3 2 False ''op'' [] (extern ''op'' [] (failing ''boom''))
          (init_state [] 0))) =
     [(WARNING, Retrying ''op'' ''boom'' 2), (WARNING, Retrying ''op'' ''boom'' 4),
      (WARNING, Retrying ''op'' ''boom'' 8)]"
proof -
  have f: "failing ''boom'' (0::nat) = (Inl (Exception ''boom''), 0)" by (simp add: failing_def)
  have e: "ext (init_state [] (0::nat)) = 0" by (simp add: init_state_def)
  have c: "\<not> contains ''op failed after 3 retries.'' ''boom''" by (simp add: startswith_def)
  show ?thesis
    using retry_three_failures[where op="failing ''boom''" and env=quiet_env
            and b=2 and jitter=False and name="''op''" and args="[]" and n="''op''" and a="[]"
            and s="init_state [] 0", OF f f f e] c
    by (simp add: jitter_at_def init_state_def)
qed

section \<open>Properties of the transcoding step\<close>

lemma map_of_put: "map_of (put n v es) m = (if m = n then Some v else map_of es m)"
proof (cases "n \<in> set (map fst es)")
  case True
  have "map_of (map (\<lambda>p. if fst p = n then (n, v) else p) es) m =
        (if m = n \<and> map_of es n \<noteq> None then Some v else map_of es m)"
    by (induction es) auto
  moreover from True have "map_of es n \<noteq> None" by (simp add: map_of_eq_None_iff)
  ultimately show ?thesis using True by (simp add: put_def)
next
  case False
  then have "map_of es n = None" by (simp add: map_of_eq_None_iff)
  then show ?thesis using False by (auto simp: put_def map_add_def split: option.splits)
qed

lemma file_at_write_file:
  assumes "folder_of st (fst p) = Some es"
  shows "file_at (write_file p t st) q = (if q = p then Some (RegFile t) else file_at st q)"
proof -
  have w: "write_file p t st = set_folder (fst p) (put (snd p) (RegFile t) es) st"
    by (simp add: write_file_def assms)
  show ?thesis
    unfolding w file_at_def folder_of_set_folder[OF assms]
    using assms by (cases p; cases q) (auto simp: map_of_put)
qed

lemma file_at_os_remove:
  assumes "file_at st p = Some (RegFile t)"
  shows "\<exists>st'. os_remove p st = Inr st' \<and>
           (\<forall>q. file_at st' q = (if q = p then None else file_at st q))"
proof -
  from assms obtain es where es: "folder_of st (fst p) = Some es" "map_of es (snd p) = Some (RegFile t)"
    by (auto simp: file_at_def split: option.splits)
  let ?st = "set_folder (fst p) (unlink (snd p) es) st"
  have r: "os_remove p st = Inr ?st" by (simp add: os_remove_def es)
  have "\<forall>q. file_at ?st q = (if q = p then None else file_at st q)"
    unfolding file_at_def folder_of_set_folder[OF es(1)]
    using es by (cases p) (auto simp: map_of_unlink)
  with r show ?thesis by blast
qed

lemma file_at_write_file_any:
  "file_at (write_file p t st) q =
     (if q = p \<and> folder_of st (fst p) \<noteq> None then Some (RegFile t) else file_at st q)"
proof (cases "folder_of st (fst p)")
  case None
  then show ?thesis by (simp add: write_file_def)
next
  case (Some es)
  then show ?thesis using file_at_write_file[OF Some, of t q] by simp
qed

lemma folder_of_write_file:
  "(folder_of (write_file p t st) f = None) = (folder_of st f = None)"
proof (cases "folder_of st (fst p)")
  case None
  then show ?thesis by (simp add: write_file_def)
next
  case (Some es)
  then show ?thesis
    by (simp add: write_file_def folder_of_set_folder[OF Some])
qed

lemma writable_folder: "writable st p = Inr u \<Longrightarrow> folder_of st (fst p) \<noteq> None"
  by (auto simp: writable_def split: option.splits)

lemma convert_body_closed_input:
  assumes "\<forall>t0. file_at (storage s) i \<noteq> Some (RegFile t0)"
  shows "\<exists>e. convert_body env i q d s = (Inl e, logging INFO (Converting q) s)"
proof (cases "file_at (storage s) i")
  case None
  then show ?thesis by (simp add: convert_body_def Let_def logging_def)
next
  case (Some en)
  with assms have "en = NonFile" by (cases en) auto
  with Some show ?thesis by (simp add: convert_body_def Let_def logging_def)
qed

lemma convert_body_decoder_raises:
  assumes "file_at (storage s) i = Some (RegFile t0)"
      and "audio_from_file env i (ext s) = (Inl e, w1)"
  shows "\<exists>s1. convert_body env i q d s = (Inl e, s1) \<and> storage s1 = storage s \<and>
              logged s1 = logged s @ [(INFO, Converting q)]"
  using assms by (simp add: convert_body_def Let_def logging_def extern_def record_event_def)

lemma convert_body_unwritable:
  assumes "file_at (storage s) i = Some (RegFile t0)"
      and "audio_from_file env i (ext s) = (Inr a, w1)"
      and "writable (storage s) (d, q @ ''.mp3'') = Inl e"
  shows "\<exists>s1. convert_body env i q d s = (Inl e, s1) \<and> storage s1 = storage s \<and>
              logged s1 = logged s @ [(INFO, Converting q)]"
  using assms by (simp add: convert_body_def Let_def logging_def extern_def record_event_def)

lemma convert_body_encoder_raises:
  assumes "file_at (storage s) i = Some (RegFile t0)"
      and "audio_from_file env i (ext s) = (Inr a, w1)"
      and "writable (storage s) (d, q @ ''.mp3'') = Inr u"
      and "audio_export env a (d, q @ ''.mp3'') w1 = (Inl e, w2)"
  shows "\<exists>s1. convert_body env i q d s = (Inl e, s1) \<and>
              storage s1 = write_file (d, q @ ''.mp3'') (opened_at env w1) (storage s) \<and>
              logged s1 = logged s @ [(INFO, Converting q)]"
  using assms by (simp add: convert_body_def Let_def logging_def extern_def record_event_def)

lemma convert_body_succeeds:
  assumes "file_at (storage s) i = Some (RegFile t0)"
      and "audio_from_file env i (ext s) = (Inr a, w1)"
      and "writable (storage s) (d, q @ ''.mp3'') = Inr u"
      and "audio_export env a (d, q @ ''.mp3'') w1 = (Inr t, w2)"
      and "i \<noteq> (d, q @ ''.mp3'')"
  shows "\<exists>s1. convert_body env i q d s = (Inr (), s1) \<and>
              file_at (storage s1) i = None \<and>
              file_at (storage s1) (d, q @ ''.mp3'') = Some (RegFile t) \<and>
              logged s1 = logged s @ [(INFO, Converting q), (INFO, Converted q)]"
proof -
  let ?mp3 = "(d, q @ ''.mp3'')"
  let ?st1 = "write_file ?mp3 (opened_at env w1) (storage s)"
  let ?st2 = "write_file ?mp3 t ?st1"
  have fo: "folder_of (storage s) (fst ?mp3) \<noteq> None" using assms(3) by (rule writable_folder)
  then have fo1: "folder_of ?st1 (fst ?mp3) \<noteq> None" by (simp add: folder_of_write_file)
  have raw: "file_at ?st2 i = Some (RegFile t0)"
    using assms(1,5) by (simp add: file_at_write_file_any)
  have out: "file_at ?st2 ?mp3 = Some (RegFile t)"
    using fo1 by (simp add: file_at_write_file_any)
  from file_at_os_remove[OF raw] obtain st' where
    rm: "os_remove i ?st2 = Inr st'" and
    q: "\<forall>p. file_at st' p = (if p = i then None else file_at ?st2 p)" by blast
  have "convert_body env i q d s =
          (Inr (), logging INFO (Converted q)
             (record_event (Extern ''audio.export'' [d, q @ ''.mp3''])
               (record_event (Extern ''AudioSegment.from_file'' [fst i, snd i])
                 (logging INFO (Converting q) s\<lparr>ext := w1\<rparr>)\<lparr>storage := ?st1, ext := w2\<rparr>)
              \<lparr>storage := ?st2\<rparr>\<lparr>storage := st'\<rparr>))"
    using assms(1-4) rm
    by (simp add: convert_body_def Let_def logging_def extern_def record_event_def)
  moreover have "file_at st' i = None" using spec[OF q, of i] by simp
  moreover have "file_at st' ?mp3 = Some (RegFile t)"
    using spec[OF q, of ?mp3] out assms(5) by simp
  ultimately show ?thesis by (simp add: logging_def record_event_def)
qed

lemma convert_body_raises:
  assumes "convert_body env i q d s = (Inl e, s1)"
  shows "logged s1 = logged s @ [(INFO, Converting q)] \<and>
         (i \<noteq> (d, q @ ''.mp3'') \<longrightarrow> file_at (storage s1) i = file_at (storage s) i)"
  using assms
  by (auto simp: convert_body_def Let_def logging_def extern_def record_event_def
        file_at_write_file_any
      split: option.splits entry.splits prod.splits sum.splits)

text \<open>
  Claim C6, amended. \<open>convert_to_mp3\<close> never raises. Whenever its \<^verbatim>\<open>try\<close> block
  raises \<open>e\<close>, the error is logged after the opening message and swallowed, and the
  input file is as it was (the input being another path than the MP3, as it is at the
  only call, where it ends in \<^verbatim>\<open>.webm\<close>). The block raises, and leaves the storage
  exactly as it was, when the input is not a regular file, when the decoder raises and
  when the output cannot be opened. It also raises when the encoder raises, but then
  the MP3 that \<^verbatim>\<open>export\<close> had opened is in the output directory. When decoder and
  encoder succeed, the block runs to its end: the input file is gone and the MP3 of the
  stem is the file that the encoder has finished.
\<close>

theorem convert_to_mp3_outcome:
  "fst (convert_to_mp3 env i q d s) = Inr () \<and>
   (\<forall>e s1. convert_body env i q d s = (Inl e, s1) \<longrightarrow>
      logged (snd (convert_to_mp3 env i q d s)) =
        logged s @ [(INFO, Converting q), (ERROR, ErrorConverting q (str_exn e))] \<and>
      (i \<noteq> (d, q @ ''.mp3'') \<longrightarrow>
         file_at (storage (snd (convert_to_mp3 env i q d s))) i = file_at (storage s) i)) \<and>
   ((\<forall>t0. file_at (storage s) i \<noteq> Some (RegFile t0)) \<longrightarrow>
      (\<exists>e. fst (convert_body env i q d s) = Inl e) \<and>
      storage (snd (convert_to_mp3 env i q d s)) = storage s) \<and>
   (\<forall>t0 e w1. file_at (storage s) i = Some (RegFile t0) \<and>
        audio_from_file env i (ext s) = (Inl e, w1) \<longrightarrow>
      fst (convert_body env i q d s) = Inl e \<and>
      storage (snd (convert_to_mp3 env i q d s)) = storage s) \<and>
   (\<forall>t0 a w1 e. file_at (storage s) i = Some (RegFile t0) \<and>
        audio_from_file env i (ext s) = (Inr a, w1) \<and>
        writable (storage s) (d, q @ ''.mp3'') = Inl e \<longrightarrow>
      fst (convert_body env i q d s) = Inl e \<and>
      storage (snd (convert_to_mp3 env i q d s)) = storage s) \<and>
   (\<forall>t0 a w1 e w2. file_at (storage s) i = Some (RegFile t0) \<and>
        audio_from_file env i (ext s) = (Inr a, w1) \<and>
        writable (storage s) (d, q @ ''.mp3'') = Inr () \<and>
        audio_export env a (d, q @ ''.mp3'') w1 = (Inl e, w2) \<longrightarrow>
      fst (convert_body env i q d s) = Inl e \<and>
      file_at (storage (snd (convert_to_mp3 env i q d s))) (d, q @ ''.mp3'') =
        Some (RegFile (opened_at env w1))) \<and>
   (\<forall>t0 a w1 t w2. file_at (storage s) i = Some (RegFile t0) \<and>
        audio_from_file env i (ext s) = (Inr a, w1) \<and>
        writable (storage s) (d, q @ ''.mp3'') = Inr () \<and>
        audio_export env a (d, q @ ''.mp3'') w1 = (Inr t, w2) \<and>
        i \<noteq> (d, q @ ''.mp3'') \<longrightarrow>
      fst (convert_body env i q d s) = Inr () \<and>
      file_at (storage (snd (convert_to_mp3 env i q d s))) i = None \<and>
      file_at (storage (snd (convert_to_mp3 env i q d s))) (d, q @ ''.mp3'') = Some (RegFile t) \<and>
      logged (snd (convert_to_mp3 env i q d s)) =
        logged s @ [(INFO, Converting q), (INFO, Converted q)])"
proof -
  let ?c = "convert_to_mp3 env i q d s"
  let ?mp3 = "(d, q @ ''.mp3'')"
  have raised: "\<And>e s1. convert_body env i q d s = (Inl e, s1) \<Longrightarrow>
                  ?c = (Inr (), logging ERROR (ErrorConverting q (str_exn e)) s1)"
    by (simp add: convert_to_mp3_def try_except_def)
  have returned: "\<And>s1. convert_body env i q d s = (Inr (), s1) \<Longrightarrow> ?c = (Inr (), s1)"
    by (simp add: convert_to_mp3_def try_except_def)
  have c1: "fst ?c = Inr ()"
    by (simp add: convert_to_mp3_def try_except_def split: prod.splits sum.splits)
  have c2: "\<forall>e s1. convert_body env i q d s = (Inl e, s1) \<longrightarrow>
      logged (snd ?c) = logged s @ [(INFO, Converting q), (ERROR, ErrorConverting q (str_exn e))] \<and>
      (i \<noteq> ?mp3 \<longrightarrow> file_at (storage (snd ?c)) i = file_at (storage s) i)"
  proof (intro allI impI)
    fix e s1 assume b: "convert_body env i q d s = (Inl e, s1)"
    from convert_body_raises[OF b] show
      "logged (snd ?c) = logged s @ [(INFO, Converting q), (ERROR, ErrorConverting q (str_exn e))] \<and>
       (i \<noteq> ?mp3 \<longrightarrow> file_at (storage (snd ?c)) i = file_at (storage s) i)"
      by (simp add: raised[OF b] logging_def)
  qed
  have c3: "(\<forall>t0. file_at (storage s) i \<noteq> Some (RegFile t0)) \<longrightarrow>
      (\<exists>e. fst (convert_body env i q d s) = Inl e) \<and> storage (snd ?c) = storage s"
  proof
    assume "\<forall>t0. file_at (storage s) i \<noteq> Some (RegFile t0)"
    from convert_body_closed_input[OF this, of env q d] obtain e where
      b: "convert_body env i q d s = (Inl e, logging INFO (Converting q) s)" by blast
    show "(\<exists>e. fst (convert_body env i q d s) = Inl e) \<and> storage (snd ?c) = storage s"
      by (simp add: raised[OF b] b logging_def)
  qed
  have c4: "\<forall>t0 e w1. file_at (storage s) i = Some (RegFile t0) \<and>
        audio_from_file env i (ext s) = (Inl e, w1) \<longrightarrow>
      fst (convert_body env i q d s) = Inl e \<and> storage (snd ?c) = storage s"
  proof (intro allI impI, elim conjE)
    fix t0 e w1
    assume "file_at (storage s) i = Some (RegFile t0)" "audio_from_file env i (ext s) = (Inl e, w1)"
    from convert_body_decoder_raises[OF this, of q d] obtain s1 where
      b: "convert_body env i q d s = (Inl e, s1)" and st: "storage s1 = storage s" by blast
    show "fst (convert_body env i q d s) = Inl e \<and> storage (snd ?c) = storage s"
      by (simp add: raised[OF b] b st logging_def)
  qed
  have c5: "\<forall>t0 a w1 e. file_at (storage s) i = Some (RegFile t0) \<and>
        audio_from_file env i (ext s) = (Inr a, w1) \<and>
        writable (storage s) ?mp3 = Inl e \<longrightarrow>
      fst (convert_body env i q d s) = Inl e \<and> storage (snd ?c) = storage s"
  proof (intro allI impI, elim conjE)
    fix t0 a w1 e
    assume "file_at (storage s) i = Some (RegFile t0)" "audio_from_file env i (ext s) = (Inr a, w1)"
           "writable (storage s) ?mp3 = Inl e"
    from convert_body_unwritable[OF this] obtain s1 where
      b: "convert_body env i q d s = (Inl e, s1)" and st: "storage s1 = storage s" by blast
    show "fst (convert_body env i q d s) = Inl e \<and> storage (snd ?c) = storage s"
      by (simp add: raised[OF b] b st logging_def)
  qed
  have c6: "\<forall>t0 a w1 e w2. file_at (storage s) i = Some (RegFile t0) \<and>
        audio_from_file env i (ext s) = (Inr a, w1) \<and>
        writable (storage s) ?mp3 = Inr () \<and>
        audio_export env a ?mp3 w1 = (Inl e, w2) \<longrightarrow>
      fst (convert_body env i q d s) = Inl e \<and>
      file_at (storage (snd ?c)) ?mp3 = Some (RegFile (opened_at env w1))"
  proof (intro allI impI, elim conjE)
    fix t0 a w1 e w2
    assume h: "file_at (storage s) i = Some (RegFile t0)" "audio_from_file env i (ext s) = (Inr a, w1)"
           "writable (storage s) ?mp3 = Inr ()" "audio_export env a ?mp3 w1 = (Inl e, w2)"
    from convert_body_encoder_raises[OF h] obtain s1 where
      b: "convert_body env i q d s = (Inl e, s1)" and
      st: "storage s1 = write_file ?mp3 (opened_at env w1) (storage s)" by blast
    have fo: "folder_of (storage s) (fst ?mp3) \<noteq> None" using h(3) by (rule writable_folder)
    show "fst (convert_body env i q d s) = Inl e \<and>
          file_at (storage (snd ?c)) ?mp3 = Some (RegFile (opened_at env w1))"
      using fo by (simp add: raised[OF b] b st logging_def file_at_write_file_any)
  qed
  have c7: "\<forall>t0 a w1 t w2. file_at (storage s) i = Some (RegFile t0) \<and>
        audio_from_file env i (ext s) = (Inr a, w1) \<and>
        writable (storage s) ?mp3 = Inr () \<and>
        audio_export env a ?mp3 w1 = (Inr t, w2) \<and> i \<noteq> ?mp3 \<longrightarrow>
      fst (convert_body env i q d s) = Inr () \<and>
      file_at (storage (snd ?c)) i = None \<and>
      file_at (storage (snd ?c)) ?mp3 = Some (RegFile t) \<and>
      logged (snd ?c) = logged s @ [(INFO, Converting q), (INFO, Converted q)]"
  proof (intro allI impI, elim conjE)
    fix t0 a w1 t w2
    assume h: "file_at (storage s) i = Some (RegFile t0)" "audio_from_file env i (ext s) = (Inr a, w1)"
           "writable (storage s) ?mp3 = Inr ()" "audio_export env a ?mp3 w1 = (Inr t, w2)"
           "i \<noteq> ?mp3"
    from convert_body_succeeds[OF h] obtain s1 where
      b: "convert_body env i q d s = (Inr (), s1)" and
      r: "file_at (storage s1) i = None" "file_at (storage s1) ?mp3 = Some (RegFile t)"
         "logged s1 = logged s @ [(INFO, Converting q), (INFO, Converted q)]" by blast
    show "fst (convert_body env i q d s) = Inr () \<and>
          file_at (storage (snd ?c)) i = None \<and>
          file_at (storage (snd ?c)) ?mp3 = Some (RegFile t) \<and>
          logged (snd ?c) = logged s @ [(INFO, Converting q), (INFO, Converted q)]"
      by (simp add: returned[OF b] b r)
  qed
  from c1 c2 c3 c4 c5 c6 c7 show ?thesis by (intro conjI)
qed

theorem convert_to_mp3_outcome_witness:
  "file_at (storage (snd (convert_to_mp3 demo_env (''uid'', ''song.webm'') ''song'' ''uid''
      (init_state raw_storage 0)))) (''uid'', ''song.webm'') = None \<and>
   file_at (storage (snd (convert_to_mp3 demo_env (''uid'', ''song.webm'') ''song'' ''uid''
      (init_state raw_storage 0)))) (''uid'', ''song.mp3'') = Some (RegFile 60) \<and>
   fst (convert_to_mp3 quiet_env (''uid'', ''song.webm'') ''song'' ''uid'' (init_state raw_storage 0))
     = Inr () \<and>
   storage (snd (convert_to_mp3 quiet_env (''uid'', ''song.webm'') ''song'' ''uid''
      (init_state raw_storage 0))) = raw_storage \<and>
   file_at (storage (snd (convert_to_mp3 no_encoder_env (''uid'', ''song.webm'') ''song'' ''uid''
      (init_state raw_storage 0)))) (''uid'', ''song.mp3'') = Some (RegFile 55)"
proof -
  have st: "storage (init_state raw_storage (0::nat)) = raw_storage"
           "ext (init_state raw_storage (0::nat)) = 0"
    by (simp_all add: init_state_def)
  have fa: "file_at raw_storage (''uid'', ''song.webm'') = Some (RegFile 50)"
           "writable raw_storage (''uid'', ''song.mp3'') = Inr ()"
    by (simp_all add: raw_storage_def file_at_def folder_of_def writable_def)
  show ?thesis
    using
      convert_to_mp3_outcome[of demo_env "(''uid'', ''song.webm'')" "''song''" "''uid''"
        "init_state raw_storage 0"]
      convert_to_mp3_outcome[of quiet_env "(''uid'', ''song.webm'')" "''song''" "''uid''"
        "init_state raw_storage 0"]
      convert_to_mp3_outcome[of no_encoder_env "(''uid'', ''song.webm'')" "''song''" "''uid''"
        "init_state raw_storage 0"]
    by (simp add: st fa demo_env_def quiet_env_def no_encoder_env_def)
qed

text \<open>
  A transcode that fails and leaves an MP3: the decoder succeeds and the encoder raises.
  The error is logged and swallowed, but the session directory, which held no MP3 of
  the stem before, holds one afterwards, and \<open>list_files\<close> reports it.
\<close>

theorem convert_failure_counterexample:
  "file_at raw_storage (''uid'', ''song.mp3'') = None \<and>
   logged (snd (convert_to_mp3 no_encoder_env (''uid'', ''song.webm'') ''song'' ''uid''
      (init_state raw_storage 0))) =
     [(INFO, Converting ''song''), (ERROR, ErrorConverting ''song'' ''cannot encode'')] \<and>
   file_at (storage (snd (convert_to_mp3 no_encoder_env (''uid'', ''song.webm'') ''song'' ''uid''
      (init_state raw_storage 0)))) (''uid'', ''song.mp3'') = Some (RegFile 55) \<and>
   fst (list_files ''uid'' (snd (convert_to_mp3 no_encoder_env (''uid'', ''song.webm'') ''song''
      ''uid'' (init_state raw_storage 0)))) = Inr (JsonFiles [''song.mp3''])"
  by (simp add: convert_to_mp3_def try_except_def convert_body_def no_encoder_env_def
        demo_env_def init_state_def raw_storage_def logging_def extern_def record_event_def
        file_at_def folder_of_def writable_def write_file_def set_folder_def put_def
        list_files_def os_path_exists_def listdir_path_def os_listdir_def endswith_def Let_def)

section \<open>Properties of the source location\<close>

lemma wrapper_general:
  assumes keeps: "\<And>s. slept (snd (func s)) = slept s"
      and tr: "\<And>s. trace (snd (func s)) = trace s @ evs"
  shows "n = nat (retries - attempt) \<Longrightarrow>
     \<exists>k ds. k \<le> n \<and> (0 < n \<longrightarrow> 1 \<le> k) \<and>
       trace (snd (wrapper env retries b jitter name func attempt s)) =
         trace s @ concat (replicate k evs) \<and>
       slept (snd (wrapper env retries b jitter name func attempt s)) = slept s @ ds"
proof (induction n arbitrary: attempt s)
  case 0
  then have "\<not> attempt < retries" by simp
  then show ?case by (simp add: wrapper_exhausted)
next
  case (Suc n)
  then have lt: "attempt < retries" by simp
  obtain r s1 where f: "func s = (r, s1)" by (cases "func s")
  have k: "slept s1 = slept s" using keeps[of s] f by simp
  have t: "trace s1 = trace s @ evs" using tr[of s] f by simp
  show ?case
  proof (cases r)
    case (Inr v)
    have w: "wrapper env retries b jitter name func attempt s = (Inr v, s1)"
      using lt f Inr by (simp add: wrapper_success)
    show ?thesis
      unfolding w using k t by (intro exI[of _ 1] exI[of _ "[]"]) simp
  next
    case (Inl e)
    let ?s2 = "backoff env b jitter name e (attempt + 1) s1"
    have n: "n = nat (retries - (attempt + 1))" using Suc.prems by simp
    have w: "wrapper env retries b jitter name func attempt s =
             wrapper env retries b jitter name func (attempt + 1) ?s2"
      using lt f Inl by (simp add: wrapper_failure)
    from Suc.IH[OF n, of ?s2] obtain k' ds where
      ih: "k' \<le> n"
          "trace (snd (wrapper env retries b jitter name func (attempt + 1) ?s2)) =
             trace ?s2 @ concat (replicate k' evs)"
          "slept (snd (wrapper env retries b jitter name func (attempt + 1) ?s2)) = slept ?s2 @ ds"
      by blast
    show ?thesis
      unfolding w using ih k t
      by (intro exI[of _ "Suc k'"] exI[of _ "delay_of env b jitter (attempt + 1) s1 # ds"]) simp
  qed
qed

lemma wrapper_raises_each_trace:
  assumes tr: "\<And>s. trace (snd (func s)) = trace s @ evs"
  shows "raises_each n env b jitter name func attempt s \<Longrightarrow> n = nat (retries - attempt) \<Longrightarrow>
     trace (snd (wrapper env retries b jitter name func attempt s)) =
        trace s @ concat (replicate n evs)"
proof (induction n arbitrary: attempt s)
  case 0
  then have "\<not> attempt < retries" by simp
  then show ?case using 0 by (simp add: wrapper_exhausted)
next
  case (Suc n)
  then have lt: "attempt < retries" by simp
  from Suc.prems(1) obtain e s1 where
    f: "func s = (Inl e, s1)" and
    r: "raises_each n env b jitter name func (attempt + 1)
          (backoff env b jitter name e (attempt + 1) s1)"
    by (auto split: prod.splits sum.splits)
  have t: "trace s1 = trace s @ evs" using tr[of s] f by simp
  let ?s2 = "backoff env b jitter name e (attempt + 1) s1"
  have n: "n = nat (retries - (attempt + 1))" using Suc.prems by simp
  have w: "wrapper env retries b jitter name func attempt s =
           wrapper env retries b jitter name func (attempt + 1) ?s2"
    using lt f by (rule wrapper_failure)
  show ?case
    unfolding w using Suc.IH[OF r n] by (simp add: t)
qed

lemma search_api_body_fields [simp]:
  "slept (snd (search_api_body env query s)) = slept s"
  "draws (snd (search_api_body env query s)) = draws s"
  "storage (snd (search_api_body env query s)) = storage s"
  "trace (snd (search_api_body env query s)) = trace s @ [Extern ''youtube.search.list'' [query]]"
  "ext (snd (search_api_body env query s)) = snd (youtube_search env query (ext s))"
  by (auto simp: search_api_body_def extern_def record_event_def logging_def Let_def
           split: prod.splits sum.splits option.splits list.splits)

lemma search_yt_dlp_body_fields [simp]:
  "slept (snd (search_yt_dlp_body env query s)) = slept s"
  "draws (snd (search_yt_dlp_body env query s)) = draws s"
  "storage (snd (search_yt_dlp_body env query s)) = storage s"
  "trace (snd (search_yt_dlp_body env query s)) =
     trace s @ [Extern ''ydl.extract_info'' [''ytsearch:'' @ query]]"
  by (auto simp: search_yt_dlp_body_def extern_def record_event_def logging_def Let_def
           split: prod.splits sum.splits option.splits list.splits)

lemma search_api_body_zero:
  assumes "youtube_search env query (ext s) = (Inr r, w')" "r = None \<or> r = Some []"
  shows "fst (search_api_body env query s) =
           Inl (Exception (''No YouTube results found for '' @ quoted query))"
  using assms by (auto simp: search_api_body_def extern_def)

lemma zero_results_raises_each:
  "zero_results_each n env query (ext s) \<Longrightarrow>
   raises_each n env b jitter name (search_api_body env query) attempt s"
proof (induction n arbitrary: attempt s)
  case 0
  show ?case by simp
next
  case (Suc n)
  from Suc.prems obtain r w' where
    y: "youtube_search env query (ext s) = (Inr r, w')" and z: "r = None \<or> r = Some []" and
    rest: "zero_results_each n env query w'"
    by (auto split: prod.splits sum.splits)
  obtain x s1 where f: "search_api_body env query s = (x, s1)"
    by (cases "search_api_body env query s")
  have x: "x = Inl (Exception (''No YouTube results found for '' @ quoted query))"
    using search_api_body_zero[OF y z] f by simp
  have flds: "slept s1 = slept s" "draws s1 = draws s" "ext s1 = w'"
    using search_api_body_fields(1,2,5)[of env query s] f y by simp_all
  have "zero_results_each n env query
          (ext (backoff env b jitter name (Exception (''No YouTube results found for '' @ quoted query))
                  (attempt + 1) s1))"
    using rest flds by simp
  from Suc.IH[OF this] show ?case
    by (simp add: f x flds)
qed

lemma concat_replicate_single: "concat (replicate n [x]) = replicate n x"
  by (induction n) simp_all

text \<open>
  Claim C1, amended. When the request of the primary search returns no result in each
  of the five calls that the wrapper makes, \<open>search_youtube_api\<close> does not fail at
  once: the request is made five times, each failure is followed by its delay, and only
  then the exhaustion error is raised. The handler of line 157 catches it and calls the
  fallback search, exactly once; the request of the fallback is made at least once and
  at most five times.
\<close>

theorem primary_zero_results_retried:
  assumes "zero_results_each 5 env query (ext s)"
  shows "fst (search_youtube_api env query s) =
           Inl (Exception ''search_youtube_api failed after 5 retries.'') \<and>
         (\<exists>k ds. 1 \<le> k \<and> k \<le> 5 \<and>
            trace (snd (locate_source env query s)) =
              trace s @ Invoke ''search_youtube_api'' [query] #
                replicate 5 (Extern ''youtube.search.list'' [query]) @
                Invoke ''search_youtube_yt_dlp'' [query] #
                replicate k (Extern ''ydl.extract_info'' [''ytsearch:'' @ query]) \<and>
            slept (snd (locate_source env query s)) =
              slept s @ map (\<lambda>i. 2 ^ Suc i + jitter_at env True (draws s) i) [0..<5] @ ds)"
proof -
  let ?s0 = "record_event (Invoke ''search_youtube_api'' [query]) s"
  let ?w = "wrapper env 5 2 True ''search_youtube_api'' (search_api_body env query) 0 ?s0"
  have five: "str_int 5 = ''5''" by code_simp
  have z: "zero_results_each (nat 5) env query (ext ?s0)"
    using assms by (simp add: record_event_def)
  note r = zero_results_raises_each[OF z, of 2 True "''search_youtube_api''" 0]
  from wrapper_raises_each[OF r, of 5]
  have p1: "fst ?w = Inl (Exception ''search_youtube_api failed after 5 retries.'')"
    and p2: "slept (snd ?w) =
              slept s @ map (\<lambda>i. 2 ^ Suc i + jitter_at env True (draws s) i) [0..<5]"
    by (simp_all add: five record_event_def)
  have p3: "trace (snd ?w) =
              trace s @ Invoke ''search_youtube_api'' [query] #
                replicate 5 (Extern ''youtube.search.list'' [query])"
    using wrapper_raises_each_trace[where func="search_api_body env query"
            and evs="[Extern ''youtube.search.list'' [query]]", OF _ r, of 5]
    by (simp add: concat_replicate_single record_event_def)
  have api: "search_youtube_api env query s = ?w"
    by (simp add: search_youtube_api_def retry_default_def retry_on_failure_def)
  obtain s1 where w: "?w = (Inl (Exception ''search_youtube_api failed after 5 retries.''), s1)"
    using p1 by (cases ?w) simp
  let ?t0 = "record_event (Invoke ''search_youtube_yt_dlp'' [query]) s1"
  let ?v = "wrapper env 5 2 True ''search_youtube_yt_dlp'' (search_yt_dlp_body env query) 0 ?t0"
  have loc: "locate_source env query s = ?v"
    by (simp add: locate_source_def try_except_def api w search_youtube_yt_dlp_def
          retry_default_def retry_on_failure_def)
  from wrapper_general[where func="search_yt_dlp_body env query"
         and evs="[Extern ''ydl.extract_info'' [''ytsearch:'' @ query]]"
         and n="nat 5" and retries=5 and attempt=0 and env=env and b=2 and jitter=True
         and name="''search_youtube_yt_dlp''" and s="?t0"]
  obtain k ds where
    k: "k \<le> 5" "1 \<le> k"
       "trace (snd ?v) = trace ?t0 @ replicate k (Extern ''ydl.extract_info'' [''ytsearch:'' @ query])"
       "slept (snd ?v) = slept ?t0 @ ds"
    by (auto simp: concat_replicate_single)
  have t0: "trace ?t0 = trace s @ Invoke ''search_youtube_api'' [query] #
                replicate 5 (Extern ''youtube.search.list'' [query]) @
                [Invoke ''search_youtube_yt_dlp'' [query]]"
           "slept ?t0 = slept s @ map (\<lambda>i. 2 ^ Suc i + jitter_at env True (draws s) i) [0..<5]"
    using p2 p3 w by (simp_all add: record_event_def)
  show ?thesis
    using p1 k unfolding api loc t0
    by (intro conjI exI[of _ k] exI[of _ ds]) simp_all
qed

theorem primary_zero_results_retried_witness:
  "fst (search_youtube_api quiet_env ''q'' (init_state [] 0)) =
      Inl (Exception ''search_youtube_api failed after 5 retries.'') \<and>
   trace (snd (locate_source quiet_env ''q'' (init_state [] 0))) =
     [Invoke ''search_youtube_api'' [''q''],
      Extern ''youtube.search.list'' [''q''], Extern ''youtube.search.list'' [''q''],
      Extern ''youtube.search.list'' [''q''], Extern ''youtube.search.list'' [''q''],
      Extern ''youtube.search.list'' [''q''],
      Invoke ''search_youtube_yt_dlp'' [''q''],
      Extern ''ydl.extract_info'' [''ytsearch:q''], Extern ''ydl.extract_info'' [''ytsearch:q''],
      Extern ''ydl.extract_info'' [''ytsearch:q''], Extern ''ydl.extract_info'' [''ytsearch:q''],
      Extern ''ydl.extract_info'' [''ytsearch:q'']] \<and>
   slept (snd (locate_source quiet_env ''q'' (init_state [] 0))) =
     [5 / 2, 9 / 2, 17 / 2, 33 / 2, 65 / 2, 5 / 2, 9 / 2, 17 / 2, 33 / 2, 65 / 2]"
proof -
  have z: "zero_results_each 5 quiet_env ''q'' (ext (init_state [] 0))"
    by (simp add: eval_nat_numeral quiet_env_def)
  have five: "str_int 5 = ''5''" by code_simp
  show ?thesis
    using primary_zero_results_retried[OF z]
    by (simp add: locate_source_def try_except_def search_youtube_api_def
          search_youtube_yt_dlp_def retry_default_def retry_on_failure_def wrapper.simps
          search_api_body_def search_yt_dlp_body_def extern_def record_event_def logging_def
          sleep_def uniform_def quiet_env_def init_state_def Let_def five quoted_def)
qed

text \<open>
  The primary search does not fail at once: with a service that finds nothing, it has
  made five requests and slept five times when it raises.
\<close>

theorem primary_retries_counterexample:
  "trace (snd (search_youtube_api quiet_env ''q'' (init_state [] 0))) =
     [Invoke ''search_youtube_api'' [''q''],
      Extern ''youtube.search.list'' [''q''], Extern ''youtube.search.list'' [''q''],
      Extern ''youtube.search.list'' [''q''], Extern ''youtube.search.list'' [''q''],
      Extern ''youtube.search.list'' [''q'']] \<and>
   slept (snd (search_youtube_api quiet_env ''q'' (init_state [] 0))) =
     [5 / 2, 9 / 2, 17 / 2, 33 / 2, 65 / 2]"
proof -
  have five: "str_int 5 = ''5''" by code_simp
  show ?thesis
    by (simp add: search_youtube_api_def retry_default_def retry_on_failure_def wrapper.simps
          search_api_body_def extern_def record_event_def logging_def
          sleep_def uniform_def quiet_env_def init_state_def Let_def five quoted_def)
qed

section \<open>Properties of the submission handler\<close>

lemma invoked_append [simp]: "invoked name (xs @ ys) = invoked name xs @ invoked name ys"
  by (induction xs rule: invoked.induct) simp_all




























end
